theory Spec2Isabelle
  imports Main "HOL-Library.Sublist"
begin

text \<open>
  A shallow embedding of the feature composition engine of the dev container CLI: the
  merge of two configuration documents (\<open>merge.ts\<close>), the synthesis of the build recipe
  and the build driver (\<open>containerFeatures.ts\<close>), the features test command, and the
  parser of feature identifiers. JavaScript strings are ASCII texts, objects are
  association lists of their own properties, exceptions are the left summand of a sum type, and
  what a function asks of the host is the list of its calls.
\<close>

section \<open>Configuration documents\<close>

text \<open>
  A configuration document is a JSON value as JavaScript holds it after parsing. Numbers
  are the integer-valued ones. An object is the list of its own properties in the order
  in which they were created, and its prototype is \<open>Object.prototype\<close>, as for every
  object that \<open>JSON.parse\<close> or an object literal makes. \<open>JBuiltin\<close> names a function or
  object of the JavaScript library: no document holds one, but the read of an inherited
  property gives one.
\<close>

datatype jsval =
    JUndefined
  | JNull
  | JBool bool
  | JNum int
  | JStr string
  | JArr "jsval list"
  | JObj "(string \<times> jsval) list"
  | JBuiltin string

type_synonym document = "(string \<times> jsval) list"

text \<open>
  An array index is the decimal text of a number below \<open>2^32 - 1\<close>, without a leading
  zero. \<open>Object.keys\<close> lists the array indices among the property names first, in
  ascending order, and then the other names in the order of their creation.
\<close>

definition is_digit :: "char \<Rightarrow> bool" where
  "is_digit c = (c \<in> set ''0123456789'')"

definition digits_value :: "string \<Rightarrow> int" where
  "digits_value s = foldl (\<lambda>n c. 10 * n + (of_char c - 48)) 0 s"

definition is_array_index :: "string \<Rightarrow> bool" where
  "is_array_index s =
     (if s = [] then False
      else if hd s = CHR ''0'' then s = ''0''
      else list_all is_digit s \<and> digits_value s < 4294967295)"

definition Object_keys :: "document \<Rightarrow> string list" where
  "Object_keys d =
     sort_key digits_value (filter is_array_index (map fst d))
     @ filter (\<lambda>k. \<not> is_array_index k) (map fst d)"

text \<open>
  The properties every such object inherits from \<open>Object.prototype\<close>: eleven functions, and
  the accessor \<open>__proto__\<close>, whose getter returns the prototype.
\<close>

definition Object_prototype_names :: "string list" where
  "Object_prototype_names =
     [''constructor'', ''__defineGetter__'', ''__defineSetter__'', ''hasOwnProperty'',
      ''__lookupGetter__'', ''__lookupSetter__'', ''isPrototypeOf'', ''propertyIsEnumerable'',
      ''toString'', ''valueOf'', ''toLocaleString'']"

definition inherited :: "string \<Rightarrow> jsval" where
  "inherited k =
     (if k = ''__proto__'' then JBuiltin ''Object.prototype''
      else if k \<in> set Object_prototype_names then JBuiltin (''Object.prototype.'' @ k)
      else JUndefined)"

text \<open>\<open>d[key]\<close> as an expression: the own property, or else the inherited one.\<close>

definition js_get :: "document \<Rightarrow> string \<Rightarrow> jsval" where
  "js_get d k = (case map_of d k of None \<Rightarrow> inherited k | Some v \<Rightarrow> v)"

text \<open>Writing an own property: an existing one keeps its place, a new one goes last.\<close>

fun define_own :: "document \<Rightarrow> string \<Rightarrow> jsval \<Rightarrow> document" where
  "define_own [] k v = [(k, v)]"
| "define_own ((k', v') # d) k v =
     (if k' = k then (k, v) # d else (k', v') # define_own d k v)"

text \<open>
  \<open>d[key] = v\<close> on an object that began as \<open>{}\<close>. For the name \<open>__proto__\<close> the
  assignment runs the setter of \<open>Object.prototype\<close>: it replaces the prototype of \<open>d\<close> when
  \<open>v\<close> is an object and does nothing otherwise, and it never creates an own property.
  The list of own properties does not show the prototype.
\<close>

definition js_set :: "document \<Rightarrow> string \<Rightarrow> jsval \<Rightarrow> document" where
  "js_set d k v = (if k = ''__proto__'' then d else define_own d k v)"

subsection \<open>The JavaScript \<open>Set\<close>\<close>

text \<open>
  \<open>[... new Set(xs)]\<close> keeps the first occurrence of every element, where two elements
  are the same under SameValueZero: primitives by value, arrays and objects by identity.
  The documents are separately parsed JSON trees, so no array or object sits at two
  positions, and two compound elements are never the same.
\<close>

fun is_primitive :: "jsval \<Rightarrow> bool" where
  "is_primitive (JArr xs) = False"
| "is_primitive (JObj ps) = False"
| "is_primitive (JBuiltin name) = False"
| "is_primitive v = True"

definition same_value_zero :: "jsval \<Rightarrow> jsval \<Rightarrow> bool" where
  "same_value_zero x y = (is_primitive x \<and> x = y)"

definition set_add :: "('a \<Rightarrow> 'a \<Rightarrow> bool) \<Rightarrow> 'a list \<Rightarrow> 'a \<Rightarrow> 'a list" where
  "set_add same s x = (if list_ex (\<lambda>y. same y x) s then s else s @ [x])"

definition new_Set :: "('a \<Rightarrow> 'a \<Rightarrow> bool) \<Rightarrow> 'a list \<Rightarrow> 'a list" where
  "new_Set same xs = foldl (set_add same) [] xs"

section \<open>merge.ts\<close>

datatype ExtendBehavior = REPLACE | SKIP | MERGE

datatype merge_error = MergeTypeError

text \<open>
  \<open>buildExtendBehaviorTable\<close> lives in \<open>configuration.ts\<close>; the table it returns is a
  parameter here, and \<open>tbl k = None\<close> stands for \<open>ExtendBehaviorTable[key] === undefined\<close>,
  whatever kind of object the table is.
\<close>

type_synonym behavior_table = "string \<Rightarrow> ExtendBehavior option"

definition GetBehaviorTypeOrDefault :: "ExtendBehavior option \<Rightarrow> ExtendBehavior" where
  "GetBehaviorTypeOrDefault behavior =
     (case behavior of None \<Rightarrow> REPLACE | Some b \<Rightarrow> b)"

fun Array_isArray :: "jsval \<Rightarrow> bool" where
  "Array_isArray (JArr xs) = True"
| "Array_isArray v = False"

text \<open>\<open>Object.values\<close>; behind the \<open>Array.isArray\<close> test it only meets arrays.\<close>

fun Object_values :: "jsval \<Rightarrow> jsval list" where
  "Object_values (JArr xs) = xs"
| "Object_values (JObj ps) = map snd ps"
| "Object_values (JStr s) = map (\<lambda>c. JStr [c]) s"
| "Object_values v = []"

definition CheckValidityAndReturnUnionArray :: "jsval \<Rightarrow> jsval \<Rightarrow> merge_error + jsval" where
  "CheckValidityAndReturnUnionArray obj1 obj2 =
     (if Array_isArray obj1 \<and> Array_isArray obj2
      then Inr (JArr (new_Set same_value_zero (Object_values obj1 @ Object_values obj2)))
      else Inl MergeTypeError)"

text \<open>The \<open>switch\<close> of \<open>ApplyMergeStrategyToObjects\<close>: what \<open>outputValue\<close> becomes.\<close>

fun outputValue :: "jsval \<Rightarrow> jsval \<Rightarrow> ExtendBehavior \<Rightarrow> merge_error + jsval" where
  "outputValue parentValue childValue REPLACE = Inr childValue"
| "outputValue parentValue childValue SKIP = Inr parentValue"
| "outputValue parentValue childValue MERGE =
     CheckValidityAndReturnUnionArray parentValue childValue"

text \<open>The function returns \<open>{[key]: outputValue}\<close>.\<close>

definition ApplyMergeStrategyToObjects ::
  "string \<Rightarrow> jsval \<Rightarrow> jsval \<Rightarrow> ExtendBehavior \<Rightarrow> merge_error + jsval" where
  "ApplyMergeStrategyToObjects key parentValue childValue strategy =
     (case outputValue parentValue childValue strategy of
        Inl e \<Rightarrow> Inl e
      | Inr v \<Rightarrow> Inr (JObj [(key, v)]))"

text \<open>
  The \<open>for\<close> loop over the union of the keys, with the document built so far. What the
  loop prints with \<open>console.log\<close> is left out.
\<close>

fun merge_loop ::
  "behavior_table \<Rightarrow> document \<Rightarrow> document \<Rightarrow> string list \<Rightarrow> document
     \<Rightarrow> merge_error + document" where
  "merge_loop tbl parentDocument childDocument [] ResultingJSONDocument =
     Inr ResultingJSONDocument"
| "merge_loop tbl parentDocument childDocument (key # keys) ResultingJSONDocument =
     (case ApplyMergeStrategyToObjects key (js_get parentDocument key)
             (js_get childDocument key) (GetBehaviorTypeOrDefault (tbl key)) of
        Inl e \<Rightarrow> Inl e
      | Inr v \<Rightarrow>
          merge_loop tbl parentDocument childDocument keys
            (js_set ResultingJSONDocument key v))"

definition UnionListOfDocumentKeys :: "document \<Rightarrow> document \<Rightarrow> string list" where
  "UnionListOfDocumentKeys parentDocument childDocument =
     new_Set (=) (Object_keys parentDocument @ Object_keys childDocument)"

definition ApplyMergeStrategyToDocuments ::
  "behavior_table \<Rightarrow> document \<Rightarrow> document \<Rightarrow> merge_error + document" where
  "ApplyMergeStrategyToDocuments tbl parentDocument childDocument =
     merge_loop tbl parentDocument childDocument
       (UnionListOfDocumentKeys parentDocument childDocument) []"

section \<open>Strings\<close>

definition LF :: string where
  "LF = [CHR 0x0A]"

definition TAB :: string where
  "TAB = [CHR 0x09]"

definition DQUOTE :: string where
  "DQUOTE = [CHR 0x22]"

text \<open>\<open>Array.prototype.join\<close>.\<close>

fun join :: "string \<Rightarrow> string list \<Rightarrow> string" where
  "join sep [] = []"
| "join sep [x] = x"
| "join sep (x # y # ys) = x @ sep @ join sep (y # ys)"

text \<open>\<open>String.prototype.split\<close> with a one-character separator.\<close>

fun js_split :: "char \<Rightarrow> string \<Rightarrow> string list" where
  "js_split sep [] = [[]]"
| "js_split sep (c # cs) =
     (if c = sep then [] # js_split sep cs
      else (case js_split sep cs of
              [] \<Rightarrow> [[c]]
            | segment # segments \<Rightarrow> (c # segment) # segments))"

text \<open>\<open>String.prototype.toUpperCase\<close>, on ASCII text.\<close>

definition char_upper :: "char \<Rightarrow> char" where
  "char_upper c =
     (let n = (of_char c :: nat) in if 97 \<le> n \<and> n \<le> 122 then char_of (n - 32) else c)"

definition toUpperCase :: "string \<Rightarrow> string" where
  "toUpperCase s = map char_upper s"

text \<open>\<open>String.prototype.startsWith\<close>.\<close>

definition startsWith :: "string \<Rightarrow> string \<Rightarrow> bool" where
  "startsWith s p = (take (length p) s = p)"

text \<open>\<open>String.prototype.includes\<close> and \<open>endsWith\<close>.\<close>

fun js_includes :: "string \<Rightarrow> string \<Rightarrow> bool" where
  "js_includes [] p = (p = [])"
| "js_includes (c # cs) p = (startsWith (c # cs) p \<or> js_includes cs p)"

definition endsWith :: "string \<Rightarrow> string \<Rightarrow> bool" where
  "endsWith s p = startsWith (rev s) (rev p)"

text \<open>The text before the first \<open>c\<close>, and the text after it if there is one.\<close>

definition split_first :: "char \<Rightarrow> string \<Rightarrow> string \<times> string option" where
  "split_first c s =
     (takeWhile (\<lambda>d. d \<noteq> c) s,
      if c \<in> set s then Some (tl (dropWhile (\<lambda>d. d \<noteq> c) s)) else None)"

text \<open>
  \<open>path.posix.join\<close> of the Node library, on the list of its arguments: the arguments that
  are not empty are joined by \<open>/\<close> and the result is normalized. Normalizing drops empty
  segments and \<open>.\<close>, lets \<open>..\<close> cancel the segment before it (above the start of a
  relative path \<open>..\<close> stays, above the root it is dropped), and keeps a leading and a
  trailing \<open>/\<close>.
\<close>

fun normalize_segments :: "bool \<Rightarrow> string list \<Rightarrow> string list \<Rightarrow> string list" where
  "normalize_segments allowAboveRoot [] res = rev res"
| "normalize_segments allowAboveRoot (segment # segments) res =
     (if segment = [] \<or> segment = ''.'' then normalize_segments allowAboveRoot segments res
      else if segment = ''..'' then
        (case res of
           [] \<Rightarrow>
             normalize_segments allowAboveRoot segments (if allowAboveRoot then [''..''] else [])
         | lastSegment # below \<Rightarrow>
             if lastSegment = ''..'' then normalize_segments allowAboveRoot segments (''..'' # res)
             else normalize_segments allowAboveRoot segments below)
      else normalize_segments allowAboveRoot segments (segment # res))"

definition posix_normalize :: "string \<Rightarrow> string" where
  "posix_normalize path =
     (if path = [] then ''.''
      else
        (let isAbsolute = startsWith path ''/'';
             trailingSeparator = endsWith path ''/'';
             normalized =
               join ''/'' (normalize_segments (\<not> isAbsolute) (js_split CHR ''/'' path) [])
         in if normalized = [] then
              (if isAbsolute then ''/'' else if trailingSeparator then ''./'' else ''.'')
            else (if isAbsolute then ''/'' else [])
                 @ normalized @ (if trailingSeparator then ''/'' else [])))"

definition path_posix_join :: "string list \<Rightarrow> string" where
  "path_posix_join args = posix_normalize (join ''/'' (filter (\<lambda>arg. arg \<noteq> []) args))"

section \<open>Features\<close>

text \<open>
  Modelled from the spec: the types \<open>SourceInformation\<close>, \<open>Feature\<close>, \<open>FeatureSet\<close> and
  \<open>FeaturesConfig\<close> of \<open>containerFeaturesConfiguration.ts\<close> (section 3 of the
  specification). A feature's value is a boolean, a string or an object from option
  names to booleans, strings or \<open>undefined\<close>.
\<close>

datatype SourceInformation =
    LocalCache
  | GithubRepo string string "string option" bool string string
  | DirectTarball string
  | FilePath string bool

text \<open>
  The fields of \<open>GithubRepo\<close> are \<open>owner\<close>, \<open>repo\<close>, \<open>tag\<close>, \<open>isLatest\<close>, \<open>apiUri\<close> and
  \<open>unauthenticatedUri\<close>; that of \<open>DirectTarball\<close> is \<open>tarballUri\<close>; those of \<open>FilePath\<close> are
  \<open>filePath\<close> and \<open>isRelative\<close>.
\<close>

datatype scalar = SBool bool | SStr string | SUndefined

datatype feature_value = VBool bool | VStr string | VOptions "(string \<times> scalar) list"

record Feature =
  f_id :: string
  f_value :: feature_value
  f_included :: bool
  f_containerEnv :: "(string \<times> string) list option"
  f_buildArg :: "string option"

record FeatureSet =
  sourceInformation :: SourceInformation
  features :: "Feature list"

record FeaturesConfig =
  featureSets :: "FeatureSet list"
  dstFolder :: "string option"

text \<open>What \<open>f.value\<close> counts for in a condition.\<close>

fun truthy :: "feature_value \<Rightarrow> bool" where
  "truthy (VBool b) = b"
| "truthy (VStr s) = (s \<noteq> [])"
| "truthy (VOptions opts) = True"

text \<open>A value inside a template literal.\<close>

fun template :: "scalar \<Rightarrow> string" where
  "template (SBool b) = (if b then ''true'' else ''false'')"
| "template (SStr s) = s"
| "template SUndefined = ''undefined''"

section \<open>containerFeatures.ts\<close>

text \<open>
  What the file takes from elsewhere is a parameter of the model: the constant
  \<open>includeAllConfiguredFeatures\<close> of \<open>product.ts\<close>, the functions \<open>getSourceInfoString\<close>,
  \<open>getFeatureValueObject\<close> and \<open>getFeatureMainValue\<close> of
  \<open>containerFeaturesConfiguration.ts\<close>, and the function that joins paths, which is
  \<open>path_posix_join\<close> in the examples.
\<close>

definition selected :: "bool \<Rightarrow> Feature \<Rightarrow> bool" where
  "selected includeAllConfiguredFeatures f =
     ((includeAllConfiguredFeatures \<or> f_included f) \<and> truthy (f_value f))"

subsection \<open>\<open>generateContainerEnvs\<close>\<close>

definition containerEnv_lines :: "Feature \<Rightarrow> string list" where
  "containerEnv_lines f =
     (let env = (case f_containerEnv f of None \<Rightarrow> [] | Some e \<Rightarrow> e)
      in map (\<lambda>k. ''ENV '' @ k @ ''=''
                  @ (case map_of env k of None \<Rightarrow> ''undefined'' | Some v \<Rightarrow> v))
           (map fst env))"

definition generateContainerEnvs :: "bool \<Rightarrow> FeaturesConfig \<Rightarrow> string" where
  "generateContainerEnvs includeAllConfiguredFeatures featuresConfig =
     foldl (\<lambda>result fSet.
              result @ join LF
                (foldl (\<lambda>envs f. envs @ containerEnv_lines f) []
                   (filter (selected includeAllConfiguredFeatures) (features fSet))))
       [] (featureSets featuresConfig)"

subsection \<open>\<open>getFeatureBuildStages\<close> and \<open>getCopyFeatureBuildStages\<close>\<close>

record stage_scripts =
  hasAcquire :: bool
  hasConfigure :: bool

type_synonym script_table = "string \<Rightarrow> stage_scripts option"

datatype js_error = TypeError

text \<open>
  \<open>buildStageScripts[i][f.id]?.hasAcquire\<close>: reading a property of \<open>buildStageScripts[i]\<close>
  throws when the array has no entry \<open>i\<close>; a feature without an entry counts as \<open>false\<close>.
\<close>

definition script_flag ::
  "(stage_scripts \<Rightarrow> bool) \<Rightarrow> script_table list \<Rightarrow> nat \<Rightarrow> string \<Rightarrow> js_error + bool" where
  "script_flag flag buildStageScripts i fid =
     (if i < length buildStageScripts
      then Inr (case (buildStageScripts ! i) fid of None \<Rightarrow> False | Some s \<Rightarrow> flag s)
      else Inl TypeError)"

text \<open>The callback of \<open>filter\<close>; \<open>&&\<close> reads the table only for a selected feature.\<close>

definition acquire_filter ::
  "bool \<Rightarrow> script_table list \<Rightarrow> nat \<Rightarrow> Feature \<Rightarrow> js_error + bool" where
  "acquire_filter includeAllConfiguredFeatures buildStageScripts i f =
     (if selected includeAllConfiguredFeatures f
      then script_flag hasAcquire buildStageScripts i (f_id f)
      else Inr False)"

fun filterE :: "('a \<Rightarrow> 'e + bool) \<Rightarrow> 'a list \<Rightarrow> 'e + 'a list" where
  "filterE p [] = Inr []"
| "filterE p (x # xs) =
     (case p x of
        Inl e \<Rightarrow> Inl e
      | Inr b \<Rightarrow>
          (case filterE p xs of
             Inl e \<Rightarrow> Inl e
           | Inr ys \<Rightarrow> Inr (if b then x # ys else ys)))"

fun mapE :: "('a \<Rightarrow> 'e + 'b) \<Rightarrow> 'a list \<Rightarrow> 'e + 'b list" where
  "mapE g [] = Inr []"
| "mapE g (x # xs) =
     (case g x of
        Inl e \<Rightarrow> Inl e
      | Inr y \<Rightarrow> (case mapE g xs of Inl e \<Rightarrow> Inl e | Inr ys \<Rightarrow> Inr (y # ys)))"

definition stage_name :: "(SourceInformation \<Rightarrow> string) \<Rightarrow> FeatureSet \<Rightarrow> Feature \<Rightarrow> string" where
  "stage_name getSourceInfoString featureSet f =
     getSourceInfoString (sourceInformation featureSet) @ ''_'' @ f_id f"

definition build_stage ::
  "(SourceInformation \<Rightarrow> string) \<Rightarrow> (string list \<Rightarrow> string) \<Rightarrow> string
     \<Rightarrow> FeatureSet \<Rightarrow> Feature \<Rightarrow> string" where
  "build_stage getSourceInfoString posix_join contentSourceRootPath featureSet f =
     (let src = getSourceInfoString (sourceInformation featureSet) in
      ''FROM mcr.microsoft.com/vscode/devcontainers/base:0-focal as ''
        @ stage_name getSourceInfoString featureSet f @ LF
      @ ''COPY --from=dev_containers_feature_content_source ''
        @ posix_join [contentSourceRootPath, src, ''features'', f_id f] @ '' ''
        @ posix_join [''/tmp/build-features'', src, ''features'', f_id f] @ LF
      @ ''COPY --from=dev_containers_feature_content_source ''
        @ posix_join [contentSourceRootPath, src, ''common''] @ '' ''
        @ posix_join [''/tmp/build-features'', src, ''common''] @ LF
      @ ''RUN cd '' @ posix_join [''/tmp/build-features'', src, ''features'', f_id f]
        @ '' && set -a && . ./devcontainer-features.env && set +a && ./bin/acquire'')"

definition copy_line ::
  "(SourceInformation \<Rightarrow> string) \<Rightarrow> (string list \<Rightarrow> string) \<Rightarrow> FeatureSet \<Rightarrow> Feature \<Rightarrow> string" where
  "copy_line getSourceInfoString posix_join featureSet f =
     (let featurePath = posix_join [''/usr/local/devcontainer-features'',
                          getSourceInfoString (sourceInformation featureSet), f_id f]
      in ''COPY --from='' @ stage_name getSourceInfoString featureSet f
           @ '' '' @ featurePath @ '' '' @ featurePath)"

definition configure_step ::
  "(SourceInformation \<Rightarrow> string) \<Rightarrow> (string list \<Rightarrow> string) \<Rightarrow> FeatureSet \<Rightarrow> Feature \<Rightarrow> string" where
  "configure_step getSourceInfoString posix_join featureSet f =
     LF @ ''RUN cd ''
       @ posix_join [''/tmp/build-features'',
           getSourceInfoString (sourceInformation featureSet), ''features'', f_id f]
       @ '' && set -a && . ./devcontainer-features.env && set +a && ./bin/configure''"

text \<open>
  The array each function builds before \<open>.join('\\n\\n')\<close>: one list of stanzas for every
  feature set, from the features that pass the filter.
\<close>

definition build_stanzas ::
  "bool \<Rightarrow> (SourceInformation \<Rightarrow> string) \<Rightarrow> (string list \<Rightarrow> string) \<Rightarrow> FeaturesConfig
     \<Rightarrow> script_table list \<Rightarrow> string \<Rightarrow> js_error + string list list" where
  "build_stanzas includeAllConfiguredFeatures getSourceInfoString posix_join featuresConfig
       buildStageScripts contentSourceRootPath =
     mapE (\<lambda>(i, featureSet).
             case filterE (acquire_filter includeAllConfiguredFeatures buildStageScripts i)
                    (features featureSet) of
               Inl e \<Rightarrow> Inl e
             | Inr fs \<Rightarrow>
                 Inr (map (build_stage getSourceInfoString posix_join contentSourceRootPath
                             featureSet) fs))
       (enumerate 0 (featureSets featuresConfig))"

definition getFeatureBuildStages ::
  "bool \<Rightarrow> (SourceInformation \<Rightarrow> string) \<Rightarrow> (string list \<Rightarrow> string) \<Rightarrow> FeaturesConfig
     \<Rightarrow> script_table list \<Rightarrow> string \<Rightarrow> js_error + string" where
  "getFeatureBuildStages includeAllConfiguredFeatures getSourceInfoString posix_join
       featuresConfig buildStageScripts contentSourceRootPath =
     (case build_stanzas includeAllConfiguredFeatures getSourceInfoString posix_join
             featuresConfig buildStageScripts contentSourceRootPath of
        Inl e \<Rightarrow> Inl e
      | Inr stanzas \<Rightarrow> Inr (join (LF @ LF) (concat stanzas)))"

text \<open>
  In the copy stanza \<open>buildStageScripts[i][f.id]?.hasConfigure\<close> is read for a feature
  that has passed the filter, so entry \<open>i\<close> exists.
\<close>

definition copy_stanza ::
  "(SourceInformation \<Rightarrow> string) \<Rightarrow> (string list \<Rightarrow> string) \<Rightarrow> script_table list \<Rightarrow> nat
     \<Rightarrow> FeatureSet \<Rightarrow> Feature \<Rightarrow> js_error + string" where
  "copy_stanza getSourceInfoString posix_join buildStageScripts i featureSet f =
     (case script_flag hasConfigure buildStageScripts i (f_id f) of
        Inl e \<Rightarrow> Inl e
      | Inr c \<Rightarrow>
          Inr (copy_line getSourceInfoString posix_join featureSet f
               @ (if c then configure_step getSourceInfoString posix_join featureSet f
                  else [])))"

definition copy_stanzas ::
  "bool \<Rightarrow> (SourceInformation \<Rightarrow> string) \<Rightarrow> (string list \<Rightarrow> string) \<Rightarrow> FeaturesConfig
     \<Rightarrow> script_table list \<Rightarrow> js_error + string list list" where
  "copy_stanzas includeAllConfiguredFeatures getSourceInfoString posix_join featuresConfig
       buildStageScripts =
     mapE (\<lambda>(i, featureSet).
             case filterE (acquire_filter includeAllConfiguredFeatures buildStageScripts i)
                    (features featureSet) of
               Inl e \<Rightarrow> Inl e
             | Inr fs \<Rightarrow>
                 mapE (copy_stanza getSourceInfoString posix_join buildStageScripts i
                         featureSet) fs)
       (enumerate 0 (featureSets featuresConfig))"

definition getCopyFeatureBuildStages ::
  "bool \<Rightarrow> (SourceInformation \<Rightarrow> string) \<Rightarrow> (string list \<Rightarrow> string) \<Rightarrow> FeaturesConfig
     \<Rightarrow> script_table list \<Rightarrow> js_error + string" where
  "getCopyFeatureBuildStages includeAllConfiguredFeatures getSourceInfoString posix_join
       featuresConfig buildStageScripts =
     (case copy_stanzas includeAllConfiguredFeatures getSourceInfoString posix_join
             featuresConfig buildStageScripts of
        Inl e \<Rightarrow> Inl e
      | Inr stanzas \<Rightarrow> Inr (join (LF @ LF) (concat stanzas)))"

subsection \<open>\<open>getFeatureEnvVariables\<close>\<close>

definition getFeatureSafeId :: "Feature \<Rightarrow> string" where
  "getFeatureSafeId f =
     toUpperCase
       (map (\<lambda>c. if c = CHR ''/'' \<or> c = CHR ''-'' then CHR ''_'' else c) (f_id f))"

definition option_line :: "string \<Rightarrow> (string \<times> scalar) list \<Rightarrow> string \<Rightarrow> string" where
  "option_line idSafe values name =
     ''_BUILD_ARG_'' @ idSafe @ ''_'' @ toUpperCase name @ ''='' @ DQUOTE
       @ template (case map_of values name of None \<Rightarrow> SUndefined | Some v \<Rightarrow> v)
       @ DQUOTE"

definition getFeatureEnvVariables ::
  "(Feature \<Rightarrow> (string \<times> scalar) list option) \<Rightarrow> (Feature \<Rightarrow> scalar) \<Rightarrow> Feature
     \<Rightarrow> string list" where
  "getFeatureEnvVariables getFeatureValueObject getFeatureMainValue f =
     (let values = getFeatureValueObject f;
          idSafe = getFeatureSafeId f;
          variables = [];
          variables =
            (case values of
               None \<Rightarrow> variables
             | Some vs \<Rightarrow>
                 (variables @ map (option_line idSafe vs) (map fst vs))
                   @ [''_BUILD_ARG_'' @ idSafe @ ''=true'']);
          variables =
            (case f_buildArg f of
               None \<Rightarrow> variables
             | Some b \<Rightarrow>
                 if b \<noteq> []
                 then variables @ [b @ ''='' @ template (getFeatureMainValue f)]
                 else variables)
      in variables)"

subsection \<open>\<open>extendImage\<close>\<close>

text \<open>
  What the build asks of the host is recorded as a list of calls, in the order in which
  they are issued. The host itself is given by \<open>params.useBuildKit\<close>,
  \<open>process.stdin.isTTY\<close>, \<open>cliHost.path.join\<close> (on the list of its arguments),
  \<open>cliHost.tmpdir()\<close> and \<open>getFolderImageName(common)\<close>.
\<close>

datatype host_call =
    Mkdirp string
  | WriteFile string string
  | DockerCLI "string list"
  | DockerPtyCLI "string list"

record host =
  useBuildKit :: bool
  stdin_isTTY :: bool
  path_join :: "string list \<Rightarrow> string"
  tmpdir :: string
  folderImageName :: string

record FeatureBuildInfo =
  info_dstFolder :: string
  dockerfileContent :: string
  dockerfilePrefixContent :: string
  buildArgs :: "(string \<times> string) list"
  buildKitContexts :: "(string \<times> string) list"

text \<open>\<open>dockerPtyCLI\<close> on a terminal, \<open>dockerCLI\<close> with continuous output otherwise.\<close>

definition docker :: "host \<Rightarrow> string list \<Rightarrow> host_call" where
  "docker h args = (if stdin_isTTY h then DockerPtyCLI args else DockerCLI args)"

definition buildContentImageName :: string where
  "buildContentImageName = ''dev_container_feature_content_temp''"

definition buildContentDockerfile :: string where
  "buildContentDockerfile =
     LF @ TAB @ ''FROM scratch'' @ LF @ TAB @ ''COPY . /tmp/build-features/'' @ LF @ TAB"

text \<open>
  \<open>getContainerFeaturesBuildInfo\<close>. The calls that copy the feature content and write the
  environment files (lines 126 to 221) are taken as given in \<open>content_calls\<close>, and so is
  the recipe \<open>dockerfile\<close> made from the template of
  \<open>getContainerFeaturesBaseDockerFile\<close>. The function returns \<open>null\<close> when \<open>dstFolder\<close> is
  undefined or empty.
\<close>

definition getContainerFeaturesBuildInfo ::
  "host \<Rightarrow> host_call list \<Rightarrow> string \<Rightarrow> FeaturesConfig \<Rightarrow> string \<Rightarrow> string
     \<Rightarrow> (host_call list \<times> FeatureBuildInfo) option" where
  "getContainerFeaturesBuildInfo h content_calls dockerfile featuresConfig baseName imageUser =
     (case dstFolder featuresConfig of
        None \<Rightarrow> None
      | Some dst \<Rightarrow>
          if dst = [] then None
          else
            (let dockerfilePrefixContent =
                   (if useBuildKit h then ''# syntax=docker/dockerfile:1.4'' else [])
                   @ LF
                   @ ''ARG _DEV_CONTAINERS_BASE_IMAGE=mcr.microsoft.com/vscode/devcontainers/base:buster''
                   @ LF;
                 buildContentDockerfilePath = path_join h [dst, ''Dockerfile.buildContent''];
                 buildContentArgs =
                   [''build'', ''-t'', buildContentImageName, ''-f'', buildContentDockerfilePath]
                   @ [dst];
                 build_content =
                   (if \<not> useBuildKit h
                    then [WriteFile buildContentDockerfilePath buildContentDockerfile,
                          docker h buildContentArgs]
                    else [])
             in Some (content_calls @ build_content,
                  \<lparr>info_dstFolder = dst,
                   dockerfileContent = dockerfile,
                   dockerfilePrefixContent = dockerfilePrefixContent,
                   buildArgs =
                     [(''_DEV_CONTAINERS_BASE_IMAGE'', baseName),
                      (''_DEV_CONTAINERS_IMAGE_USER'', imageUser),
                      (''_DEV_CONTAINERS_FEATURE_CONTENT_SOURCE'', buildContentImageName)],
                   buildKitContexts =
                     (if useBuildKit h then [(''dev_containers_feature_content_source'', dst)]
                      else [])\<rparr>)))"

text \<open>
  \<open>getExtendImageBuildInfo\<close>; \<open>generateFeaturesConfig\<close> may return no configuration at all.
\<close>

definition getExtendImageBuildInfo ::
  "host \<Rightarrow> host_call list \<Rightarrow> string \<Rightarrow> FeaturesConfig option \<Rightarrow> string \<Rightarrow> string
     \<Rightarrow> (host_call list \<times> FeatureBuildInfo) option" where
  "getExtendImageBuildInfo h content_calls dockerfile featuresConfig baseName imageUser =
     (case featuresConfig of
        None \<Rightarrow> None
      | Some cfg \<Rightarrow>
          getContainerFeaturesBuildInfo h content_calls dockerfile cfg baseName imageUser)"

text \<open>The argument vector of the build, lines 49 to 75.\<close>

definition build_args ::
  "host \<Rightarrow> FeatureBuildInfo \<Rightarrow> string \<Rightarrow> string \<Rightarrow> string \<Rightarrow> string list" where
  "build_args h featureBuildInfo updatedImageName dockerfilePath emptyTempDir =
     (let args = [];
          args =
            (if useBuildKit h
             then (args @ [''buildx'', ''build'', ''--load''])
                  @ concat (map (\<lambda>(buildContext, dir).
                                   [''--build-context'', buildContext @ ''='' @ dir])
                              (buildKitContexts featureBuildInfo))
             else args @ [''build'']);
          args = args @ concat (map (\<lambda>(buildArg, v). [''--build-arg'', buildArg @ ''='' @ v])
                                 (buildArgs featureBuildInfo));
          args = args @ [''-t'', updatedImageName, ''-f'', dockerfilePath, emptyTempDir]
      in args)"

text \<open>\<open>extendImage\<close>: the calls made and the name of the image returned.\<close>

definition extendImage ::
  "host \<Rightarrow> host_call list \<Rightarrow> string \<Rightarrow> FeaturesConfig option \<Rightarrow> string \<Rightarrow> string
     \<Rightarrow> host_call list \<times> string" where
  "extendImage h content_calls dockerfile featuresConfig imageName imageUser =
     (case getExtendImageBuildInfo h content_calls dockerfile featuresConfig imageName imageUser of
        None \<Rightarrow> ([], imageName)
      | Some (calls, featureBuildInfo) \<Rightarrow>
          (let dockerfilePath =
                 path_join h [info_dstFolder featureBuildInfo, ''Dockerfile.extended''];
               updatedImageName =
                 (if startsWith imageName (folderImageName h) then imageName
                  else folderImageName h) @ ''-features'';
               emptyTempDir = path_join h [tmpdir h, ''__dev-containers-build-empty'']
           in (calls
               @ [WriteFile dockerfilePath
                    (dockerfilePrefixContent featureBuildInfo @ dockerfileContent featureBuildInfo),
                  Mkdirp emptyTempDir,
                  docker h (build_args h featureBuildInfo updatedImageName dockerfilePath
                              emptyTempDir)],
               updatedImageName)))"

section \<open>The features test command\<close>

text \<open>
  \<open>doFeaturesTestCommand\<close> either writes \<open>No features specified\<close> to the standard error and
  exits with status 1, or goes on to \<open>generateProject\<close> and \<open>launch\<close> with the list of
  features (and exits with status 0 once \<open>launch\<close> has returned). What it writes to the
  standard output is left out.
\<close>

datatype test_outcome =
    NoFeaturesSpecified string nat
  | Launched "string list"

definition doFeaturesTestCommand :: "string \<Rightarrow> test_outcome" where
  "doFeaturesTestCommand commaSeparatedFeatures =
     (let features = js_split CHR '','' commaSeparatedFeatures
      in if length features = 0 then NoFeaturesSpecified (''No features specified'' @ LF) 1
         else Launched features)"

section \<open>Feature identifiers\<close>

text \<open>
  Modelled from the spec: the charset of a valid feature id,
  \<open>[A-Za-z0-9_][A-Za-z0-9_-]*\<close> (section 4.1); \<open>containerFeaturesConfiguration.ts\<close>, which
  holds the parser, is not at hand.
\<close>

definition id_first_chars :: string where
  "id_first_chars = ''ABCDEFGHIJKLMNOPQRSTUVWXYZabcdefghijklmnopqrstuvwxyz0123456789_''"

definition valid_id :: "string \<Rightarrow> bool" where
  "valid_id s =
     (case s of
        [] \<Rightarrow> False
      | c # cs \<Rightarrow> c \<in> set id_first_chars \<and> (\<forall>d \<in> set cs. d \<in> set (id_first_chars @ ''-'')))"

text \<open>
  Modelled from the spec: the \<open>github-repo\<close> source of an owner, a repo and an optional
  tag, with the URIs of rule 3 of section 4.1 as scenarios 2 and 3 of section 8 spell
  them out.
\<close>

definition github_source :: "string \<Rightarrow> string \<Rightarrow> string option \<Rightarrow> SourceInformation" where
  "github_source owner repo tag =
     (case tag of
        None \<Rightarrow>
          GithubRepo owner repo None True
            (''https://api.github.com/repos/'' @ owner @ ''/'' @ repo @ ''/releases/latest'')
            (''https://github.com/'' @ owner @ ''/'' @ repo
               @ ''/releases/latest/download/devcontainer-features.tgz'')
      | Some t \<Rightarrow>
          GithubRepo owner repo (Some t) False
            (''https://api.github.com/repos/'' @ owner @ ''/'' @ repo @ ''/releases/tags/'' @ t)
            (''https://github.com/'' @ owner @ ''/'' @ repo @ ''/releases/download/'' @ t
               @ ''/devcontainer-features.tgz''))"

text \<open>
  Modelled from the spec: \<open>parseFeatureIdentifier\<close> of \<open>containerFeaturesConfiguration.ts\<close>,
  of which only the tests are at hand. The rules are those of section 4.1, in their
  order. The tag is what follows the first \<open>@\<close>. The specification leaves the \<open>filePath\<close>
  of a path identifier open; the identifier itself stands for it.
\<close>

definition parseFeatureIdentifier :: "string \<Rightarrow> (SourceInformation \<times> string) option" where
  "parseFeatureIdentifier s =
     (if js_includes s ''://'' then
        (case js_split CHR ''#'' s of
           [uri, fid] \<Rightarrow>
             if endsWith uri ''.tgz'' \<and> valid_id fid then Some (DirectTarball uri, fid)
             else None
         | _ \<Rightarrow> None)
      else if startsWith s ''./'' \<or> startsWith s ''../'' \<or> startsWith s ''/'' then
        Some (FilePath s (\<not> startsWith s ''/''), last (js_split CHR ''/'' s))
      else
        (case split_first CHR ''@'' s of
           (path, tag) \<Rightarrow>
             (case js_split CHR ''/'' path of
                [owner, repo, fid] \<Rightarrow>
                  if valid_id fid \<and> tag \<noteq> Some [] then Some (github_source owner repo tag, fid)
                  else None
              | [fid] \<Rightarrow> if valid_id fid \<and> tag = None then Some (LocalCache, fid) else None
              | _ \<Rightarrow> None)))"

section \<open>Auxiliary functions of the proofs\<close>

text \<open>
  The elements a \<open>Set\<close> adds to those it has already seen, as a recursion on the input.
\<close>

fun fresh :: "('a \<Rightarrow> 'a \<Rightarrow> bool) \<Rightarrow> 'a list \<Rightarrow> 'a list \<Rightarrow> 'a list" where
  "fresh same seen [] = []"
| "fresh same seen (x # xs) =
     (if list_ex (\<lambda>y. same y x) seen then fresh same seen xs
      else x # fresh same (seen @ [x]) xs)"

text \<open>
  The features of feature set \<open>i\<close> that get a build stage, and the list of all of them
  over the configuration with the index of their set, in the order of emission.
\<close>

definition has_flag :: "(stage_scripts \<Rightarrow> bool) \<Rightarrow> script_table list \<Rightarrow> nat \<Rightarrow> Feature \<Rightarrow> bool" where
  "has_flag flag buildStageScripts i f =
     (case (buildStageScripts ! i) (f_id f) of None \<Rightarrow> False | Some s \<Rightarrow> flag s)"

definition acquire_features :: "bool \<Rightarrow> script_table list \<Rightarrow> nat \<Rightarrow> FeatureSet \<Rightarrow> Feature list" where
  "acquire_features incl buildStageScripts i featureSet =
     filter (\<lambda>f. selected incl f \<and> has_flag hasAcquire buildStageScripts i f)
       (features featureSet)"

definition staged ::
  "bool \<Rightarrow> FeaturesConfig \<Rightarrow> script_table list \<Rightarrow> (nat \<times> FeatureSet \<times> Feature) list" where
  "staged incl featuresConfig buildStageScripts =
     concat (map (\<lambda>(i, featureSet).
                    map (\<lambda>f. (i, featureSet, f))
                      (acquire_features incl buildStageScripts i featureSet))
               (enumerate 0 (featureSets featuresConfig)))"

section \<open>Properties of the merge\<close>

subsection \<open>Sets\<close>

lemma foldl_set_add: "foldl (set_add same) acc xs = acc @ fresh same acc xs"
  by (induction xs arbitrary: acc) (simp_all add: set_add_def)

lemma new_Set_fresh: "new_Set same xs = fresh same [] xs"
  by (simp add: new_Set_def foldl_set_add)

lemma fresh_eq_set: "set (fresh (=) seen xs) = set xs - set seen"
  by (induction xs arbitrary: seen) (auto simp: list_ex_iff)

lemma fresh_eq_distinct: "distinct (fresh (=) seen xs)"
  by (induction xs arbitrary: seen) (auto simp: list_ex_iff fresh_eq_set)

lemma svz_ex: "list_ex (\<lambda>y. same_value_zero y x) seen \<longleftrightarrow> is_primitive x \<and> x \<in> set seen"
  by (cases "is_primitive x") (auto simp: list_ex_iff same_value_zero_def)

lemma fresh_svz_set: "set (fresh same_value_zero seen xs) = {x \<in> set xs. \<not> (is_primitive x \<and> x \<in> set seen)}"
  by (induction xs arbitrary: seen) (auto simp: svz_ex)

lemma fresh_svz_count_prim:
  "is_primitive v \<Longrightarrow> count_list (fresh same_value_zero seen xs) v = (if v \<in> set xs \<and> v \<notin> set seen then 1 else 0)"
  by (induction xs arbitrary: seen) (auto simp: svz_ex)

lemma fresh_svz_count_comp:
  "\<not> is_primitive v \<Longrightarrow> count_list (fresh same_value_zero seen xs) v = count_list xs v"
  by (induction xs arbitrary: seen) (auto simp: svz_ex)

lemma fresh_append: "fresh same seen (xs @ ys) = fresh same seen xs @ fresh same (seen @ fresh same seen xs) ys"
  by (induction xs arbitrary: seen) auto

lemma fresh_cong_set:
  "set seen = set seen' \<Longrightarrow>
   fresh same_value_zero seen xs = fresh same_value_zero seen' xs"
proof (induction xs arbitrary: seen seen')
  case Nil
  show ?case by simp
next
  case (Cons x xs)
  have a: "list_ex (\<lambda>y. same_value_zero y x) seen = list_ex (\<lambda>y. same_value_zero y x) seen'"
    using Cons.prems by (simp only: svz_ex)
  have "set (seen @ [x]) = set (seen' @ [x])" using Cons.prems by simp
  then have b: "fresh same_value_zero (seen @ [x]) xs = fresh same_value_zero (seen' @ [x]) xs"
    by (rule Cons.IH)
  have c: "fresh same_value_zero seen xs = fresh same_value_zero seen' xs"
    using Cons.prems by (rule Cons.IH)
  show ?case by (simp only: fresh.simps a b c)
qed

lemma fresh_svz_filter:
  "fresh same_value_zero (s1 @ s2) xs =
     filter (\<lambda>x. \<not> (is_primitive x \<and> x \<in> set s1)) (fresh same_value_zero s2 xs)"
proof (induction xs arbitrary: s2)
  case Nil
  show ?case by simp
next
  case (Cons x xs)
  show ?case
  proof (cases "is_primitive x \<and> x \<in> set s2")
    case True
    then show ?thesis using Cons.IH [of s2] by (simp add: svz_ex)
  next
    case notin2: False
    show ?thesis
    proof (cases "is_primitive x \<and> x \<in> set s1")
      case True
      have "fresh same_value_zero (s1 @ s2) xs = fresh same_value_zero (s1 @ s2 @ [x]) xs"
        using True by (intro fresh_cong_set) auto
      then show ?thesis using True notin2 Cons.IH [of "s2 @ [x]"] by (auto simp: svz_ex)
    next
      case False
      then show ?thesis using notin2 Cons.IH [of "s2 @ [x]"] by (auto simp: svz_ex)
    qed
  qed
qed

lemma new_Set_union_order:
  "new_Set same_value_zero (xs @ ys) =
     new_Set same_value_zero xs @
     filter (\<lambda>y. \<not> (is_primitive y \<and> y \<in> set xs)) (new_Set same_value_zero ys)"
proof -
  have "set (fresh same_value_zero [] xs) = set xs" by (simp add: fresh_svz_set)
  then have "fresh same_value_zero ([] @ fresh same_value_zero [] xs) ys = fresh same_value_zero (xs @ []) ys"
    by (intro fresh_cong_set) simp
  then show ?thesis
    using fresh_svz_filter [of xs "[]" ys] by (simp add: new_Set_fresh fresh_append)
qed

lemma fresh_subseq: "subseq (fresh same seen xs) xs"
  by (induction xs arbitrary: seen) auto

subsection \<open>The loop over the keys\<close>

lemma set_Object_keys: "set (Object_keys d) = fst ` set d"
  by (auto simp: Object_keys_def)

lemma js_get_define_own: "js_get (define_own d k v) k' = (if k' = k then v else js_get d k')"
  by (induction d) (auto simp: js_get_def)

lemma js_get_js_set:
  "js_get (js_set d k v) k' = (if k' = k \<and> k \<noteq> ''__proto__'' then v else js_get d k')"
  by (simp add: js_set_def js_get_define_own)

lemma names_define_own_list:
  "map fst (define_own d k v) =
     (if k \<in> set (map fst d) then map fst d else map fst d @ [k])"
  by (induction d) force+

lemma names_define_own: "fst ` set (define_own d k v) = insert k (fst ` set d)"
proof -
  have "set (map fst (define_own d k v)) = insert k (set (map fst d))"
    by (auto simp: names_define_own_list)
  then show ?thesis by simp
qed

lemma names_js_set:
  "fst ` set (js_set d k v) =
     (if k = ''__proto__'' then fst ` set d else insert k (fst ` set d))"
  by (simp add: js_set_def names_define_own)

lemma merge_loop_names:
  "merge_loop tbl p c ks res = Inr r \<Longrightarrow>
     fst ` set r = fst ` set res \<union> (set ks - {''__proto__''})"
proof (induction ks arbitrary: res)
  case Nil
  then show ?case by simp
next
  case (Cons a ks)
  from Cons.prems obtain v where
    rest: "merge_loop tbl p c ks (js_set res a v) = Inr r"
    by (auto split: sum.splits)
  note ih = Cons.IH [OF rest]
  show ?case
  proof (cases "a = ''__proto__''")
    case True
    then show ?thesis using ih by (simp add: names_js_set)
  next
    case False
    then show ?thesis using ih by (auto simp: names_js_set)
  qed
qed

lemma merge_loop_get:
  "merge_loop tbl p c ks res = Inr r \<Longrightarrow>
     (if k \<in> set ks \<and> k \<noteq> ''__proto__''
      then ApplyMergeStrategyToObjects k (js_get p k) (js_get c k)
             (GetBehaviorTypeOrDefault (tbl k)) = Inr (js_get r k)
      else js_get r k = js_get res k)"
proof (induction ks arbitrary: res)
  case Nil
  then show ?case by simp
next
  case (Cons a ks)
  from Cons.prems obtain v where
    v: "ApplyMergeStrategyToObjects a (js_get p a) (js_get c a)
          (GetBehaviorTypeOrDefault (tbl a)) = Inr v"
    and rest: "merge_loop tbl p c ks (js_set res a v) = Inr r"
    by (auto split: sum.splits)
  note ih = Cons.IH [OF rest]
  show ?case
  proof (cases "k \<in> set ks \<and> k \<noteq> ''__proto__''")
    case True
    with ih show ?thesis by simp
  next
    case False
    with ih have "js_get r k = js_get (js_set res a v) k" by simp
    then show ?thesis using False v by (cases "k = a") (auto simp: js_get_js_set)
  qed
qed

lemma merge_loop_error:
  "k \<in> set ks \<Longrightarrow>
   ApplyMergeStrategyToObjects k (js_get p k) (js_get c k)
     (GetBehaviorTypeOrDefault (tbl k)) = Inl e \<Longrightarrow>
   merge_loop tbl p c ks res = Inl MergeTypeError"
proof (induction ks arbitrary: res)
  case Nil
  then show ?case by simp
next
  case (Cons a ks)
  show ?case
  proof (cases "ApplyMergeStrategyToObjects a (js_get p a) (js_get c a)
                  (GetBehaviorTypeOrDefault (tbl a))")
    case (Inl e')
    then show ?thesis by (cases e') simp
  next
    case (Inr v)
    with Cons.prems have "k \<in> set ks" by auto
    from Cons.IH [OF this Cons.prems(2)] Inr show ?thesis by simp
  qed
qed


lemma union_keys_set: "set (UnionListOfDocumentKeys p c) = set (Object_keys p) \<union> set (Object_keys c)"
  by (simp add: UnionListOfDocumentKeys_def new_Set_fresh fresh_eq_set)

lemma merge_keys:
  assumes "ApplyMergeStrategyToDocuments tbl p c = Inr r"
  shows "set (Object_keys r) = set (Object_keys p) \<union> set (Object_keys c) - {''__proto__''}"
proof -
  from assms have "fst ` set r =
      fst ` set ([] :: document) \<union> (set (UnionListOfDocumentKeys p c) - {''__proto__''})"
    unfolding ApplyMergeStrategyToDocuments_def by (rule merge_loop_names)
  then show ?thesis by (simp add: set_Object_keys [of r] union_keys_set)
qed

subsection \<open>Merging two documents\<close>

lemma merge_values_wrapped:
  assumes "ApplyMergeStrategyToDocuments tbl p c = Inr r" and "k \<in> set (Object_keys r)"
  shows "\<exists>v. outputValue (js_get p k) (js_get c k) (GetBehaviorTypeOrDefault (tbl k)) = Inr v
             \<and> js_get r k = JObj [(k, v)]"
proof -
  from assms(1) have l: "merge_loop tbl p c (UnionListOfDocumentKeys p c) [] = Inr r"
    by (simp add: ApplyMergeStrategyToDocuments_def)
  from assms have "k \<in> set (UnionListOfDocumentKeys p c) \<and> k \<noteq> ''__proto__''"
    by (simp add: merge_keys union_keys_set)
  with merge_loop_get [OF l, of k]
  have "ApplyMergeStrategyToObjects k (js_get p k) (js_get c k)
          (GetBehaviorTypeOrDefault (tbl k)) = Inr (js_get r k)"
    by simp
  then show ?thesis
    by (auto simp: ApplyMergeStrategyToObjects_def split: sum.splits)
qed

lemma cv_arrays: "CheckValidityAndReturnUnionArray (JArr xs) (JArr ys) = Inr (JArr (new_Set same_value_zero (xs @ ys)))"
  by (simp add: CheckValidityAndReturnUnionArray_def)

text \<open>
  Claim C1, on the code. For parent \<open>{a:1, list:[1,2]}\<close> and child \<open>{a:2, list:[2,3]}\<close>,
  with \<open>list\<close> bound to \<open>MERGE\<close> and \<open>a\<close> left to the default, the merge returns
  \<open>{a:{a:2}, list:{list:[1,2,3]}}\<close>: \<open>ApplyMergeStrategyToObjects\<close> returns the
  one-property object \<open>{[key]: outputValue}\<close> and the loop stores that object under
  \<open>key\<close> again. The result is not the flat document \<open>{a:2, list:[1,2,3]}\<close>.
\<close>

theorem merge_scenario_result_nested:
  "ApplyMergeStrategyToDocuments [''list'' \<mapsto> MERGE]
     [(''a'', JNum 1), (''list'', JArr [JNum 1, JNum 2])]
     [(''a'', JNum 2), (''list'', JArr [JNum 2, JNum 3])]
   = Inr [(''a'', JObj [(''a'', JNum 2)]),
          (''list'', JObj [(''list'', JArr [JNum 1, JNum 2, JNum 3])])]
   \<and> ApplyMergeStrategyToDocuments [''list'' \<mapsto> MERGE]
     [(''a'', JNum 1), (''list'', JArr [JNum 1, JNum 2])]
     [(''a'', JNum 2), (''list'', JArr [JNum 2, JNum 3])]
   \<noteq> Inr [(''a'', JNum 2), (''list'', JArr [JNum 1, JNum 2, JNum 3])]"
  by code_simp

text \<open>
  Claim C2, as the code has it. Under \<open>MERGE\<close>, two arrays give the parent's elements
  followed by the child's new ones, where "new" is decided by the \<open>Set\<close>: a primitive
  element of either array occurs exactly once in the result, an array or object element
  is kept at every occurrence. Any other pair of values is an error, which the merge of
  the documents passes on without a result.
\<close>

theorem MERGE_union_or_error:
  "(let u = new_Set same_value_zero (xs @ ys) in
      ApplyMergeStrategyToObjects key (JArr xs) (JArr ys) MERGE = Inr (JObj [(key, JArr u)])
      \<and> outputValue (JArr xs) (JArr ys) MERGE = Inr (JArr u)
      \<and> set u = set xs \<union> set ys
      \<and> (\<forall>v. is_primitive v \<and> v \<in> set xs \<union> set ys \<longrightarrow> count_list u v = 1)
      \<and> (\<forall>v. \<not> is_primitive v \<longrightarrow> count_list u v = count_list (xs @ ys) v)
      \<and> u = new_Set same_value_zero xs
            @ filter (\<lambda>y. \<not> (is_primitive y \<and> y \<in> set xs)) (new_Set same_value_zero ys)
      \<and> subseq u (xs @ ys))
   \<and> (\<not> (Array_isArray pv \<and> Array_isArray cv) \<longrightarrow>
         outputValue pv cv MERGE = Inl MergeTypeError
         \<and> ApplyMergeStrategyToObjects key pv cv MERGE = Inl MergeTypeError)
   \<and> (k \<in> set (Object_keys p) \<union> set (Object_keys c)
        \<and> GetBehaviorTypeOrDefault (tbl k) = MERGE
        \<and> \<not> (Array_isArray (js_get p k) \<and> Array_isArray (js_get c k)) \<longrightarrow>
         ApplyMergeStrategyToDocuments tbl p c = Inl MergeTypeError)"
proof -
  let ?u = "new_Set same_value_zero (xs @ ys)"
  have 1: "outputValue (JArr xs) (JArr ys) MERGE = Inr (JArr ?u)"
    by (simp add: cv_arrays)
  have 0: "ApplyMergeStrategyToObjects key (JArr xs) (JArr ys) MERGE = Inr (JObj [(key, JArr ?u)])"
    by (simp add: ApplyMergeStrategyToObjects_def cv_arrays)
  have 2: "set ?u = set xs \<union> set ys"
    by (auto simp: new_Set_fresh fresh_svz_set)
  have 3: "\<forall>v. is_primitive v \<and> v \<in> set xs \<union> set ys \<longrightarrow> count_list ?u v = 1"
    by (simp add: new_Set_fresh fresh_svz_count_prim)
  have 4: "\<forall>v. \<not> is_primitive v \<longrightarrow> count_list ?u v = count_list (xs @ ys) v"
    by (simp add: new_Set_fresh fresh_svz_count_comp)
  have 5: "?u = new_Set same_value_zero xs
            @ filter (\<lambda>y. \<not> (is_primitive y \<and> y \<in> set xs)) (new_Set same_value_zero ys)"
    by (rule new_Set_union_order)
  have 6: "subseq ?u (xs @ ys)"
    by (simp only: new_Set_fresh fresh_subseq)
  have 7: "outputValue pv cv MERGE = Inl MergeTypeError
         \<and> ApplyMergeStrategyToObjects key pv cv MERGE = Inl MergeTypeError"
    if "\<not> (Array_isArray pv \<and> Array_isArray cv)"
    using that by (simp add: ApplyMergeStrategyToObjects_def CheckValidityAndReturnUnionArray_def)
  have 8: "ApplyMergeStrategyToDocuments tbl p c = Inl MergeTypeError"
    if k: "k \<in> set (Object_keys p) \<union> set (Object_keys c)"
      and m: "GetBehaviorTypeOrDefault (tbl k) = MERGE"
      and n: "\<not> (Array_isArray (js_get p k) \<and> Array_isArray (js_get c k))"
  proof -
    from k have "k \<in> set (UnionListOfDocumentKeys p c)" by (simp add: union_keys_set)
    moreover have "ApplyMergeStrategyToObjects k (js_get p k) (js_get c k)
        (GetBehaviorTypeOrDefault (tbl k)) = Inl MergeTypeError"
      using n m by (simp add: ApplyMergeStrategyToObjects_def CheckValidityAndReturnUnionArray_def)
    ultimately show ?thesis
      unfolding ApplyMergeStrategyToDocuments_def by (rule merge_loop_error)
  qed
  show ?thesis
    unfolding Let_def using 0 1 2 3 4 5 6 7 8 by blast
qed

theorem MERGE_union_or_error_witness:
  "is_primitive (JNum 2)
   \<and> JNum 2 \<in> set [JNum 1, JNum 2] \<union> set [JNum 2, JNum 3]
   \<and> count_list (new_Set same_value_zero ([JNum 1, JNum 2] @ [JNum 2, JNum 3])) (JNum 2) = 1
   \<and> \<not> is_primitive (JObj [])
   \<and> \<not> (Array_isArray (JArr [JNum 1]) \<and> Array_isArray JUndefined)
   \<and> ApplyMergeStrategyToObjects ''list'' (JArr [JNum 1]) JUndefined MERGE = Inl MergeTypeError
   \<and> ''list'' \<in> set (Object_keys [(''list'', JArr [JNum 1])]) \<union> set (Object_keys [])
   \<and> GetBehaviorTypeOrDefault ([''list'' \<mapsto> MERGE] ''list'') = MERGE
   \<and> ApplyMergeStrategyToDocuments [''list'' \<mapsto> MERGE] [(''list'', JArr [JNum 1])] [] = Inl MergeTypeError"
proof -
  note t = MERGE_union_or_error [of "[JNum 1, JNum 2]" "[JNum 2, JNum 3]" "''list''"
      "JArr [JNum 1]" JUndefined "''list''" "[(''list'', JArr [JNum 1])]" "[]"
      "[''list'' \<mapsto> MERGE]", unfolded Let_def]
  have a: "is_primitive (JNum 2) \<and> JNum 2 \<in> set [JNum 1, JNum 2] \<union> set [JNum 2, JNum 3]"
    by simp
  have b: "\<not> (Array_isArray (JArr [JNum 1]) \<and> Array_isArray JUndefined)"
    by simp
  have c: "''list'' \<in> set (Object_keys [(''list'', JArr [JNum 1])]) \<union> set (Object_keys [])
      \<and> GetBehaviorTypeOrDefault ([''list'' \<mapsto> MERGE] ''list'') = MERGE
      \<and> \<not> (Array_isArray (js_get [(''list'', JArr [JNum 1])] ''list'')
            \<and> Array_isArray (js_get [] ''list''))"
    by (simp add: set_Object_keys GetBehaviorTypeOrDefault_def js_get_def inherited_def
          Object_prototype_names_def)
  from t a have 1:
    "count_list (new_Set same_value_zero ([JNum 1, JNum 2] @ [JNum 2, JNum 3])) (JNum 2) = 1"
    by blast
  from t b have 2:
    "ApplyMergeStrategyToObjects ''list'' (JArr [JNum 1]) JUndefined MERGE = Inl MergeTypeError"
    by blast
  from t c have 3:
    "ApplyMergeStrategyToDocuments [''list'' \<mapsto> MERGE] [(''list'', JArr [JNum 1])] []
       = Inl MergeTypeError"
    by blast
  from a b c 1 2 3 show ?thesis by simp
qed

text \<open>
  Claim C2 as stated, "every element appears exactly once", fails where both arrays hold
  an equal object: \<open>[{a:1}]\<close> merged with \<open>[{a:1}]\<close> is \<open>[{a:1}, {a:1}]\<close>.
\<close>

theorem MERGE_keeps_equal_objects:
  "ApplyMergeStrategyToObjects ''list'' (JArr [JObj [(''a'', JNum 1)]]) (JArr [JObj [(''a'', JNum 1)]]) MERGE
     = Inr (JObj [(''list'', JArr [JObj [(''a'', JNum 1)], JObj [(''a'', JNum 1)]])])
   \<and> \<not> distinct [JObj [(''a'', JNum 1)], JObj [(''a'', JNum 1)]]"
  by (simp add: ApplyMergeStrategyToObjects_def CheckValidityAndReturnUnionArray_def new_Set_def set_add_def same_value_zero_def)

lemma wrapper_differs: "JObj [(k, v)] \<noteq> v"
proof
  assume "JObj [(k, v)] = v"
  then have "size (JObj [(k, v)]) = size v" by simp
  then show False by simp
qed

lemma merge_REPLACE_wraps_again:
  assumes "ApplyMergeStrategyToDocuments Map.empty a b = Inr m"
    and "ApplyMergeStrategyToDocuments Map.empty a m = Inr m'"
    and "k \<in> set (Object_keys a) \<union> set (Object_keys b)"
    and "k \<noteq> ''__proto__''"
  shows "js_get m' k = JObj [(k, js_get m k)] \<and> m' \<noteq> m"
proof -
  have "k \<in> set (Object_keys m)"
    using assms(1,3,4) by (simp add: merge_keys)
  then have "k \<in> set (Object_keys m')"
    using assms(2,4) by (simp add: merge_keys)
  from merge_values_wrapped [OF assms(2) this]
  have w: "js_get m' k = JObj [(k, js_get m k)]"
    by (simp add: GetBehaviorTypeOrDefault_def)
  then have "js_get m' k \<noteq> js_get m k" by (simp add: wrapper_differs)
  then have "m' \<noteq> m" by auto
  with w show ?thesis by simp
qed

text \<open>
  Claim C3, on the code. With every key under \<open>REPLACE\<close>, merging \<open>{}\<close> with \<open>{x:1}\<close>
  gives \<open>{x:{x:1}}\<close>, and merging \<open>{}\<close> with that result gives \<open>{x:{x:{x:1}}}\<close>:
  each merge wraps the values once more, so the merge is not idempotent. By
  \<open>merge_REPLACE_wraps_again\<close> the same happens whenever the two documents have a key
  other than \<open>__proto__\<close>.
\<close>

theorem merge_REPLACE_not_idempotent:
  "ApplyMergeStrategyToDocuments Map.empty [] [(''x'', JNum 1)]
     = Inr [(''x'', JObj [(''x'', JNum 1)])]
   \<and> ApplyMergeStrategyToDocuments Map.empty [] [(''x'', JObj [(''x'', JNum 1)])]
     = Inr [(''x'', JObj [(''x'', JObj [(''x'', JNum 1)])])]
   \<and> [(''x'', JObj [(''x'', JObj [(''x'', JNum 1)])])] \<noteq> [(''x'', JObj [(''x'', JNum 1)])]"
  by code_simp

text \<open>
  Two documents with array indices among their keys, and a document with the own key
  \<open>__proto__\<close>, which \<open>JSON.parse\<close> can make: the keys of the result come in the order of
  \<open>Object.keys\<close>, and the assignment to \<open>__proto__\<close> leaves no own key.
\<close>

lemma merge_array_indices_first:
  "map_sum id Object_keys
     (ApplyMergeStrategyToDocuments Map.empty
        [(''b'', JNum 1), (''1'', JNum 2)] [(''c'', JNum 3), (''0'', JNum 4)])
   = Inr [''0'', ''1'', ''b'', ''c'']"
  by code_simp

lemma merge_proto_no_own_key:
  "ApplyMergeStrategyToDocuments Map.empty [(''__proto__'', JNum 1), (''a'', JNum 2)] []
   = Inr [(''a'', JObj [(''a'', inherited ''a'')])]"
  by code_simp




section \<open>Properties of the build recipe\<close>

subsection \<open>Container environment\<close>

lemma foldl_append_concat: "foldl (\<lambda>acc x. acc @ g x) a xs = a @ concat (map g xs)"
  by (induction xs arbitrary: a) simp_all

lemma generateContainerEnvs_concat:
  "generateContainerEnvs incl cfg =
     concat (map (\<lambda>fSet. join LF (concat (map containerEnv_lines
                                   (filter (selected incl) (features fSet)))))
               (featureSets cfg))"
  by (simp add: generateContainerEnvs_def foldl_append_concat)

text \<open>
  Claim C5, on the code. Within one feature set the \<open>ENV\<close> lines are joined by a line
  feed, but the text of the next feature set is appended with nothing in between. With
  two feature sets of one included feature each, \<open>A=1\<close> and \<open>B=2\<close>, the result is the
  single line \<open>ENV A=1ENV B=2\<close>: the two entries do not get a line each.
\<close>

theorem generateContainerEnvs_two_sets_one_line:
  "generateContainerEnvs False
     \<lparr>featureSets =
        [\<lparr>sourceInformation = LocalCache,
          features = [\<lparr>f_id = ''a'', f_value = VStr ''latest'', f_included = True,
                       f_containerEnv = Some [(''A'', ''1'')], f_buildArg = None\<rparr>]\<rparr>,
         \<lparr>sourceInformation = DirectTarball ''https://example.com/devcontainer-features.tgz'',
          features = [\<lparr>f_id = ''b'', f_value = VStr ''latest'', f_included = True,
                       f_containerEnv = Some [(''B'', ''2'')], f_buildArg = None\<rparr>]\<rparr>],
      dstFolder = Some ''/tmp/features''\<rparr>
   = ''ENV A=1ENV B=2''
   \<and> js_split (CHR 0x0A) ''ENV A=1ENV B=2'' = [''ENV A=1ENV B=2'']"
  by (simp add: generateContainerEnvs_def containerEnv_lines_def selected_def LF_def)

subsection \<open>Build stages and copy stanzas\<close>

lemma filterE_filter:
  "(\<And>x. x \<in> set xs \<Longrightarrow> p x = Inr (q x)) \<Longrightarrow> filterE p xs = Inr (filter q xs)"
  by (induction xs) simp_all

lemma mapE_map:
  "(\<And>x. x \<in> set xs \<Longrightarrow> g x = Inr (h x)) \<Longrightarrow> mapE g xs = Inr (map h xs)"
  by (induction xs) simp_all

lemma acquire_filter_in_range:
  "i < length bss \<Longrightarrow>
   acquire_filter incl bss i f = Inr (selected incl f \<and> has_flag hasAcquire bss i f)"
  by (simp add: acquire_filter_def script_flag_def has_flag_def)

lemma filterE_acquire:
  "i < length bss \<Longrightarrow>
   filterE (acquire_filter incl bss i) (features fs) = Inr (acquire_features incl bss i fs)"
  unfolding acquire_features_def
  by (rule filterE_filter) (simp add: acquire_filter_in_range)

lemma enumerate_index_bound: "(i, x) \<in> set (enumerate n xs) \<Longrightarrow> i < n + length xs"
  by (auto simp: in_set_enumerate_eq)

lemma build_stanzas_eq:
  assumes "length (featureSets cfg) \<le> length bss"
  shows "build_stanzas incl sis pj cfg bss root =
     Inr (map (\<lambda>(i, fs). map (build_stage sis pj root fs) (acquire_features incl bss i fs))
            (enumerate 0 (featureSets cfg)))"
  unfolding build_stanzas_def
proof (rule mapE_map)
  fix x assume x: "x \<in> set (enumerate 0 (featureSets cfg))"
  obtain i fs where [simp]: "x = (i, fs)" by (cases x)
  from x assms have "i < length bss" by (auto dest: enumerate_index_bound)
  then show "(case x of (i, featureSet) \<Rightarrow>
            case filterE (acquire_filter incl bss i) (features featureSet) of
              Inl e \<Rightarrow> Inl e
            | Inr fs \<Rightarrow> Inr (map (build_stage sis pj root featureSet) fs)) =
         Inr (case x of (i, fs) \<Rightarrow> map (build_stage sis pj root fs) (acquire_features incl bss i fs))"
    by (simp add: filterE_acquire)
qed

lemma copy_stanza_in_range:
  "i < length bss \<Longrightarrow>
   copy_stanza sis pj bss i fs f =
     Inr (copy_line sis pj fs f
          @ (if has_flag hasConfigure bss i f then configure_step sis pj fs f else []))"
  by (simp add: copy_stanza_def script_flag_def has_flag_def)

lemma copy_stanzas_eq:
  assumes "length (featureSets cfg) \<le> length bss"
  shows "copy_stanzas incl sis pj cfg bss =
     Inr (map (\<lambda>(i, fs).
                 map (\<lambda>f. copy_line sis pj fs f
                        @ (if has_flag hasConfigure bss i f then configure_step sis pj fs f else []))
                   (acquire_features incl bss i fs))
            (enumerate 0 (featureSets cfg)))"
  unfolding copy_stanzas_def
proof (rule mapE_map)
  fix x assume x: "x \<in> set (enumerate 0 (featureSets cfg))"
  obtain i fs where [simp]: "x = (i, fs)" by (cases x)
  from x assms have i: "i < length bss" by (auto dest: enumerate_index_bound)
  have "mapE (copy_stanza sis pj bss i fs) (acquire_features incl bss i fs) =
     Inr (map (\<lambda>f. copy_line sis pj fs f
                 @ (if has_flag hasConfigure bss i f then configure_step sis pj fs f else []))
            (acquire_features incl bss i fs))"
    by (rule mapE_map) (simp add: copy_stanza_in_range [OF i])
  then show "(case x of (i, featureSet) \<Rightarrow>
            case filterE (acquire_filter incl bss i) (features featureSet) of
              Inl e \<Rightarrow> Inl e
            | Inr fs \<Rightarrow> mapE (copy_stanza sis pj bss i featureSet) fs) =
         Inr (case x of (i, fs) \<Rightarrow>
                map (\<lambda>f. copy_line sis pj fs f
                       @ (if has_flag hasConfigure bss i f then configure_step sis pj fs f else []))
                  (acquire_features incl bss i fs))"
    by (simp add: filterE_acquire [OF i])
qed

lemma concat_map_staged:
  "concat (map (\<lambda>(i, fs). map (g i fs) (acquire_features incl bss i fs)) (enumerate n sets))
   = map (\<lambda>(i, fs, f). g i fs f)
       (concat (map (\<lambda>(i, fs). map (\<lambda>f. (i, fs, f)) (acquire_features incl bss i fs))
                  (enumerate n sets)))"
  by (induction sets arbitrary: n) (simp_all add: comp_def)

lemma count_list_map_triple:
  "count_list (map (\<lambda>f. (i', fs', f)) xs) (i, fs, f) =
     (if i' = i \<and> fs' = fs then count_list xs f else 0)"
  by (induction xs) auto

lemma count_list_filter: "count_list (filter P xs) x = (if P x then count_list xs x else 0)"
  by (induction xs) auto

lemma count_acquire_features:
  "count_list (acquire_features incl bss i fs) f =
     (if selected incl f \<and> has_flag hasAcquire bss i f then count_list (features fs) f else 0)"
  by (simp add: acquire_features_def count_list_filter)

lemma count_staged_from:
  "count_list (concat (map (\<lambda>(i, fs). map (\<lambda>f. (i, fs, f)) (acquire_features incl bss i fs))
                         (enumerate n sets))) (i, fs, f)
   = (if n \<le> i \<and> i < n + length sets \<and> sets ! (i - n) = fs
         \<and> selected incl f \<and> has_flag hasAcquire bss i f
      then count_list (features fs) f else 0)"
proof (induction sets arbitrary: n)
  case Nil
  show ?case by simp
next
  case (Cons a sets)
  show ?case
  proof (cases "i = n")
    case True
    then have "count_list
        (concat (map (\<lambda>(i, fs). map (\<lambda>f. (i, fs, f)) (acquire_features incl bss i fs))
                   (enumerate (Suc n) sets))) (i, fs, f) = 0"
      using Cons.IH [of "Suc n"] by simp
    then show ?thesis using True
      by (simp add: count_list_map_triple count_acquire_features)
  next
    case False
    then have "(i - n) = Suc (i - Suc n) \<or> i < n" by arith
    then show ?thesis using False
      by (auto simp: Cons.IH count_list_map_triple)
  qed
qed

lemma build_stage_name:
  "prefix (''FROM mcr.microsoft.com/vscode/devcontainers/base:0-focal as ''
            @ sis (sourceInformation fs) @ ''_'' @ f_id f @ LF)
     (build_stage sis pj root fs f)"
  unfolding build_stage_def stage_name_def Let_def
  by (simp only: append_assoc same_prefix_prefix prefix_code append.simps) simp

lemma copy_line_name:
  "prefix (''COPY --from='' @ sis (sourceInformation fs) @ ''_'' @ f_id f @ '' '')
     (copy_line sis pj fs f)"
  unfolding copy_line_def stage_name_def Let_def
  by (simp only: append_assoc same_prefix_prefix prefix_code append.simps)

lemma configure_step_run:
  "prefix (LF @ ''RUN cd '') (configure_step sis pj fs f)
   \<and> suffix ''./bin/configure'' (configure_step sis pj fs f)"
  unfolding configure_step_def
  by (auto simp: suffix_def)

lemma staged_count:
  "count_list (staged incl cfg bss) (i, fs, f) =
     (if i < length (featureSets cfg) \<and> featureSets cfg ! i = fs
         \<and> selected incl f \<and> has_flag hasAcquire bss i f
      then count_list (features fs) f else 0)"
  unfolding staged_def using count_staged_from [of incl bss 0 "featureSets cfg" i fs f]
  by simp

lemma filterE_throws:
  fixes p :: "'a \<Rightarrow> js_error + bool"
  shows "x \<in> set xs \<Longrightarrow> p x = Inl TypeError \<Longrightarrow> filterE p xs = Inl TypeError"
proof (induction xs)
  case Nil
  then show ?case by simp
next
  case (Cons y ys)
  show ?case
  proof (cases "p y")
    case (Inl e)
    then show ?thesis by (cases e) simp
  next
    case (Inr b)
    with Cons.prems have "x \<in> set ys" by auto
    from Cons.IH [OF this Cons.prems(2)] Inr show ?thesis by simp
  qed
qed

lemma mapE_throws:
  fixes g :: "'a \<Rightarrow> js_error + 'b"
  shows "x \<in> set xs \<Longrightarrow> g x = Inl TypeError \<Longrightarrow> mapE g xs = Inl TypeError"
proof (induction xs)
  case Nil
  then show ?case by simp
next
  case (Cons y ys)
  show ?case
  proof (cases "g y")
    case (Inl e)
    then show ?thesis by (cases e) simp
  next
    case (Inr b)
    with Cons.prems have "x \<in> set ys" by auto
    from Cons.IH [OF this Cons.prems(2)] Inr show ?thesis by simp
  qed
qed

lemma filterE_acquire_throws:
  assumes "length bss \<le> i" and "f \<in> set (features fs)" and "selected incl f"
  shows "filterE (acquire_filter incl bss i) (features fs) = Inl TypeError"
proof -
  have "acquire_filter incl bss i f = Inl TypeError"
    using assms(1,3) by (simp add: acquire_filter_def script_flag_def)
  with assms(2) show ?thesis by (rule filterE_throws)
qed

lemma stages_throw:
  assumes "i < length (featureSets cfg)" and "length bss \<le> i"
    and "f \<in> set (features (featureSets cfg ! i))" and "selected incl f"
  shows "getFeatureBuildStages incl sis pj cfg bss root = Inl TypeError"
    and "getCopyFeatureBuildStages incl sis pj cfg bss = Inl TypeError"
proof -
  have mem: "(i, featureSets cfg ! i) \<in> set (enumerate 0 (featureSets cfg))"
    using assms(1) by (simp add: in_set_enumerate_eq)
  note t = filterE_acquire_throws [OF assms(2,3,4)]
  have "build_stanzas incl sis pj cfg bss root = Inl TypeError"
    unfolding build_stanzas_def using mem by (rule mapE_throws) (simp add: t)
  then show "getFeatureBuildStages incl sis pj cfg bss root = Inl TypeError"
    by (simp add: getFeatureBuildStages_def)
  have "copy_stanzas incl sis pj cfg bss = Inl TypeError"
    unfolding copy_stanzas_def using mem by (rule mapE_throws) (simp add: t)
  then show "getCopyFeatureBuildStages incl sis pj cfg bss = Inl TypeError"
    by (simp add: getCopyFeatureBuildStages_def)
qed

lemma stages_join:
  assumes "length (featureSets cfg) \<le> length bss"
  shows "getFeatureBuildStages incl sis pj cfg bss root =
       Inr (join (LF @ LF)
              (map (\<lambda>(i, fs, f). build_stage sis pj root fs f) (staged incl cfg bss)))"
    and "getCopyFeatureBuildStages incl sis pj cfg bss =
       Inr (join (LF @ LF)
              (map (\<lambda>(i, fs, f).
                      copy_line sis pj fs f
                      @ (if has_flag hasConfigure bss i f then configure_step sis pj fs f
                         else []))
                 (staged incl cfg bss)))"
proof -
  show "getFeatureBuildStages incl sis pj cfg bss root =
       Inr (join (LF @ LF)
              (map (\<lambda>(i, fs, f). build_stage sis pj root fs f) (staged incl cfg bss)))"
    unfolding getFeatureBuildStages_def build_stanzas_eq [OF assms] staged_def
    by (simp add: concat_map_staged [of "\<lambda>i. build_stage sis pj root"])
  show "getCopyFeatureBuildStages incl sis pj cfg bss =
       Inr (join (LF @ LF)
              (map (\<lambda>(i, fs, f).
                      copy_line sis pj fs f
                      @ (if has_flag hasConfigure bss i f then configure_step sis pj fs f
                         else []))
                 (staged incl cfg bss)))"
    unfolding getCopyFeatureBuildStages_def copy_stanzas_eq [OF assms] staged_def
    by (simp add: concat_map_staged [of "\<lambda>i fs f. copy_line sis pj fs f
                      @ (if has_flag hasConfigure bss i f then configure_step sis pj fs f
                         else [])"])
qed

text \<open>
  Claim C6, as the code has it. When \<open>buildStageScripts\<close> has an entry for every feature
  set, both functions succeed, and each is the join of one stanza for every element of
  \<open>staged\<close>, in the same order. An included feature with a value and an acquire script is
  in \<open>staged\<close> once for each time its feature set lists it, every other feature never.
  Its build stage is named by the source-info string, an underscore and the feature id,
  its copy stanza copies from the stage of that name, and the \<open>RUN\<close> step of
  \<open>./bin/configure\<close> follows the copy line exactly when the feature has a configure
  script. When \<open>buildStageScripts\<close> has no entry for a feature set that lists an included
  feature with a value, both functions throw.
\<close>

theorem acquire_features_staged_per_listing:
  "(length (featureSets cfg) \<le> length bss \<longrightarrow>
      getFeatureBuildStages incl sis pj cfg bss root =
        Inr (join (LF @ LF)
               (map (\<lambda>(i, fs, f). build_stage sis pj root fs f) (staged incl cfg bss)))
      \<and> getCopyFeatureBuildStages incl sis pj cfg bss =
        Inr (join (LF @ LF)
               (map (\<lambda>(i, fs, f).
                       copy_line sis pj fs f
                       @ (if has_flag hasConfigure bss i f then configure_step sis pj fs f
                          else []))
                  (staged incl cfg bss))))
   \<and> (\<forall>i fs f. count_list (staged incl cfg bss) (i, fs, f) =
         (if i < length (featureSets cfg) \<and> featureSets cfg ! i = fs
             \<and> selected incl f \<and> has_flag hasAcquire bss i f
          then count_list (features fs) f else 0))
   \<and> (\<forall>fs f. prefix (''FROM mcr.microsoft.com/vscode/devcontainers/base:0-focal as ''
                       @ sis (sourceInformation fs) @ ''_'' @ f_id f @ LF)
                (build_stage sis pj root fs f))
   \<and> (\<forall>fs f. prefix (''COPY --from='' @ sis (sourceInformation fs) @ ''_'' @ f_id f @ '' '')
                (copy_line sis pj fs f))
   \<and> (\<forall>fs f. prefix (LF @ ''RUN cd '') (configure_step sis pj fs f)
             \<and> suffix ''./bin/configure'' (configure_step sis pj fs f))
   \<and> (\<forall>i f. i < length (featureSets cfg) \<and> length bss \<le> i
             \<and> f \<in> set (features (featureSets cfg ! i)) \<and> selected incl f \<longrightarrow>
         getFeatureBuildStages incl sis pj cfg bss root = Inl TypeError
         \<and> getCopyFeatureBuildStages incl sis pj cfg bss = Inl TypeError)"
proof -
  have 1: "length (featureSets cfg) \<le> length bss \<longrightarrow>
      getFeatureBuildStages incl sis pj cfg bss root =
        Inr (join (LF @ LF)
               (map (\<lambda>(i, fs, f). build_stage sis pj root fs f) (staged incl cfg bss)))
      \<and> getCopyFeatureBuildStages incl sis pj cfg bss =
        Inr (join (LF @ LF)
               (map (\<lambda>(i, fs, f).
                       copy_line sis pj fs f
                       @ (if has_flag hasConfigure bss i f then configure_step sis pj fs f
                          else []))
                  (staged incl cfg bss)))"
    using stages_join by blast
  have 2: "\<forall>i f. i < length (featureSets cfg) \<and> length bss \<le> i
             \<and> f \<in> set (features (featureSets cfg ! i)) \<and> selected incl f \<longrightarrow>
         getFeatureBuildStages incl sis pj cfg bss root = Inl TypeError
         \<and> getCopyFeatureBuildStages incl sis pj cfg bss = Inl TypeError"
    using stages_throw by blast
  show ?thesis
    by (intro conjI allI 1 2 staged_count build_stage_name copy_line_name
          configure_step_run [THEN conjunct1] configure_step_run [THEN conjunct2])
qed

theorem acquire_features_staged_per_listing_witness:
  "length (featureSets
     \<lparr>featureSets =
        [\<lparr>sourceInformation = LocalCache,
          features = [\<lparr>f_id = ''a'', f_value = VStr ''latest'', f_included = True,
                       f_containerEnv = None, f_buildArg = None\<rparr>]\<rparr>,
         \<lparr>sourceInformation = DirectTarball ''u'',
          features = [\<lparr>f_id = ''b'', f_value = VBool True, f_included = True,
                       f_containerEnv = None, f_buildArg = None\<rparr>]\<rparr>],
      dstFolder = Some ''/tmp/features''\<rparr>)
   \<le> length [Map.empty, [''b'' \<mapsto> \<lparr>hasAcquire = True, hasConfigure = True\<rparr>]]
   \<and> getCopyFeatureBuildStages False (\<lambda>s. if s = LocalCache then ''local-cache'' else ''tarball'')
       path_posix_join
       \<lparr>featureSets =
        [\<lparr>sourceInformation = LocalCache,
          features = [\<lparr>f_id = ''a'', f_value = VStr ''latest'', f_included = True,
                       f_containerEnv = None, f_buildArg = None\<rparr>]\<rparr>,
         \<lparr>sourceInformation = DirectTarball ''u'',
          features = [\<lparr>f_id = ''b'', f_value = VBool True, f_included = True,
                       f_containerEnv = None, f_buildArg = None\<rparr>]\<rparr>],
      dstFolder = Some ''/tmp/features''\<rparr>
       [Map.empty, [''b'' \<mapsto> \<lparr>hasAcquire = True, hasConfigure = True\<rparr>]]
     = Inr (''COPY --from=tarball_b /usr/local/devcontainer-features/tarball/b ''
            @ ''/usr/local/devcontainer-features/tarball/b'' @ LF
            @ ''RUN cd /tmp/build-features/tarball/features/b && set -a && ''
            @ ''. ./devcontainer-features.env && set +a && ./bin/configure'')
   \<and> (1::nat) < length (featureSets
     \<lparr>featureSets =
        [\<lparr>sourceInformation = LocalCache,
          features = [\<lparr>f_id = ''a'', f_value = VStr ''latest'', f_included = True,
                       f_containerEnv = None, f_buildArg = None\<rparr>]\<rparr>,
         \<lparr>sourceInformation = DirectTarball ''u'',
          features = [\<lparr>f_id = ''b'', f_value = VBool True, f_included = True,
                       f_containerEnv = None, f_buildArg = None\<rparr>]\<rparr>],
      dstFolder = Some ''/tmp/features''\<rparr>)
   \<and> length [Map.empty :: script_table] \<le> (1::nat)
   \<and> selected False \<lparr>f_id = ''b'', f_value = VBool True, f_included = True,
                       f_containerEnv = None, f_buildArg = None\<rparr>
   \<and> getFeatureBuildStages False (\<lambda>s. if s = LocalCache then ''local-cache'' else ''tarball'')
       path_posix_join
       \<lparr>featureSets =
        [\<lparr>sourceInformation = LocalCache,
          features = [\<lparr>f_id = ''a'', f_value = VStr ''latest'', f_included = True,
                       f_containerEnv = None, f_buildArg = None\<rparr>]\<rparr>,
         \<lparr>sourceInformation = DirectTarball ''u'',
          features = [\<lparr>f_id = ''b'', f_value = VBool True, f_included = True,
                       f_containerEnv = None, f_buildArg = None\<rparr>]\<rparr>],
      dstFolder = Some ''/tmp/features''\<rparr>
       [Map.empty] ''.''
     = Inl TypeError"
proof -
  let ?fb = "\<lparr>f_id = ''b'', f_value = VBool True, f_included = True,
                       f_containerEnv = None, f_buildArg = None\<rparr>"
  let ?fsb = "\<lparr>sourceInformation = DirectTarball ''u'', features = [?fb]\<rparr>"
  let ?cfg = "\<lparr>featureSets =
        [\<lparr>sourceInformation = LocalCache,
          features = [\<lparr>f_id = ''a'', f_value = VStr ''latest'', f_included = True,
                       f_containerEnv = None, f_buildArg = None\<rparr>]\<rparr>,
         ?fsb],
      dstFolder = Some ''/tmp/features''\<rparr>"
  let ?bss = "[Map.empty, [''b'' \<mapsto> \<lparr>hasAcquire = True, hasConfigure = True\<rparr>]]"
  let ?sis = "\<lambda>s. if s = LocalCache then ''local-cache'' else ''tarball''"
  have h: "length (featureSets ?cfg) \<le> length ?bss" by simp
  note t = acquire_features_staged_per_listing [of ?cfg ?bss False ?sis path_posix_join "''.''"]
  note u = acquire_features_staged_per_listing [of ?cfg "[Map.empty]" False ?sis path_posix_join "''.''"]
  have s: "staged False ?cfg ?bss = [(1, ?fsb, ?fb)]"
    by (simp add: staged_def acquire_features_def selected_def has_flag_def enumerate_eq_zip upt_rec)
  have p1: "path_posix_join [''/usr/local/devcontainer-features'', ''tarball'', ''b'']
      = ''/usr/local/devcontainer-features/tarball/b''"
    by code_simp
  have p2: "path_posix_join [''/tmp/build-features'', ''tarball'', ''features'', ''b'']
      = ''/tmp/build-features/tarball/features/b''"
    by code_simp
  from t h have "getCopyFeatureBuildStages False ?sis path_posix_join ?cfg ?bss
     = Inr (join (LF @ LF)
              (map (\<lambda>(i, fs, f).
                      copy_line ?sis path_posix_join fs f
                      @ (if has_flag hasConfigure ?bss i f
                         then configure_step ?sis path_posix_join fs f
                         else []))
                 (staged False ?cfg ?bss)))"
    by blast
  then have c: "getCopyFeatureBuildStages False ?sis path_posix_join ?cfg ?bss
     = Inr (''COPY --from=tarball_b /usr/local/devcontainer-features/tarball/b ''
            @ ''/usr/local/devcontainer-features/tarball/b'' @ LF
            @ ''RUN cd /tmp/build-features/tarball/features/b && set -a && ''
            @ ''. ./devcontainer-features.env && set +a && ./bin/configure'')"
    unfolding s by (simp add: copy_line_def configure_step_def stage_name_def has_flag_def p1 p2)
  have k: "(1::nat) < length (featureSets ?cfg) \<and> length [Map.empty :: script_table] \<le> (1::nat)
      \<and> ?fb \<in> set (features (featureSets ?cfg ! 1)) \<and> selected False ?fb"
    by (simp add: selected_def)
  from u k have e: "getFeatureBuildStages False ?sis path_posix_join ?cfg [Map.empty] ''.''
     = Inl TypeError"
    by blast
  from h c k e show ?thesis by simp
qed

text \<open>
  Claim C6 as stated, "appears in exactly one build stage", fails for a feature that its
  feature set lists twice: there are two build stages of the same name, and two copy
  stanzas.
\<close>

theorem feature_listed_twice_staged_twice:
  "getFeatureBuildStages False (the \<circ> [LocalCache \<mapsto> ''local-cache'']) path_posix_join
     \<lparr>featureSets =
        [\<lparr>sourceInformation = LocalCache,
          features = [\<lparr>f_id = ''a'', f_value = VStr ''latest'', f_included = True,
                       f_containerEnv = None, f_buildArg = None\<rparr>,
                      \<lparr>f_id = ''a'', f_value = VStr ''latest'', f_included = True,
                       f_containerEnv = None, f_buildArg = None\<rparr>]\<rparr>],
      dstFolder = Some ''/tmp/features''\<rparr>
     [[''a'' \<mapsto> \<lparr>hasAcquire = True, hasConfigure = False\<rparr>]] ''.''
   = Inr (''FROM mcr.microsoft.com/vscode/devcontainers/base:0-focal as local-cache_a'' @ LF
          @ ''COPY --from=dev_containers_feature_content_source local-cache/features/a ''
          @ ''/tmp/build-features/local-cache/features/a'' @ LF
          @ ''COPY --from=dev_containers_feature_content_source local-cache/common ''
          @ ''/tmp/build-features/local-cache/common'' @ LF
          @ ''RUN cd /tmp/build-features/local-cache/features/a && set -a && ''
          @ ''. ./devcontainer-features.env && set +a && ./bin/acquire''
          @ LF @ LF
          @ ''FROM mcr.microsoft.com/vscode/devcontainers/base:0-focal as local-cache_a'' @ LF
          @ ''COPY --from=dev_containers_feature_content_source local-cache/features/a ''
          @ ''/tmp/build-features/local-cache/features/a'' @ LF
          @ ''COPY --from=dev_containers_feature_content_source local-cache/common ''
          @ ''/tmp/build-features/local-cache/common'' @ LF
          @ ''RUN cd /tmp/build-features/local-cache/features/a && set -a && ''
          @ ''. ./devcontainer-features.env && set +a && ./bin/acquire'')
   \<and> getCopyFeatureBuildStages False (the \<circ> [LocalCache \<mapsto> ''local-cache'']) path_posix_join
     \<lparr>featureSets =
        [\<lparr>sourceInformation = LocalCache,
          features = [\<lparr>f_id = ''a'', f_value = VStr ''latest'', f_included = True,
                       f_containerEnv = None, f_buildArg = None\<rparr>,
                      \<lparr>f_id = ''a'', f_value = VStr ''latest'', f_included = True,
                       f_containerEnv = None, f_buildArg = None\<rparr>]\<rparr>],
      dstFolder = Some ''/tmp/features''\<rparr>
     [[''a'' \<mapsto> \<lparr>hasAcquire = True, hasConfigure = False\<rparr>]]
   = Inr (''COPY --from=local-cache_a /usr/local/devcontainer-features/local-cache/a ''
          @ ''/usr/local/devcontainer-features/local-cache/a''
          @ LF @ LF
          @ ''COPY --from=local-cache_a /usr/local/devcontainer-features/local-cache/a ''
          @ ''/usr/local/devcontainer-features/local-cache/a'')"
  by code_simp

subsection \<open>Environment variables of a feature\<close>

lemma char_upper_fixes: "c = CHR ''/'' \<or> c = CHR ''-'' \<or> c = CHR ''_'' \<Longrightarrow> char_upper c = c"
  by (auto simp: char_upper_def)

lemma char_upper_not_sep: "c \<noteq> CHR ''/'' \<Longrightarrow> c \<noteq> CHR ''-'' \<Longrightarrow>
    char_upper c \<noteq> CHR ''/'' \<and> char_upper c \<noteq> CHR ''-''"
  by (auto simp: char_upper_def Let_def char_of_eq_iff take_bit_eq_mod)

lemma char_upper_replace:
  "char_upper (if c = CHR ''/'' \<or> c = CHR ''-'' then CHR ''_'' else c)
   = (if char_upper c = CHR ''/'' \<or> char_upper c = CHR ''-'' then CHR ''_'' else char_upper c)"
proof (cases "c = CHR ''/'' \<or> c = CHR ''-''")
  case True
  then show ?thesis by (auto simp: char_upper_fixes)
next
  case False
  then show ?thesis using char_upper_not_sep [of c] by simp
qed

lemma getFeatureSafeId_alt:
  "getFeatureSafeId f =
     map (\<lambda>c. if c = CHR ''/'' \<or> c = CHR ''-'' then CHR ''_'' else c) (toUpperCase (f_id f))"
  by (simp add: getFeatureSafeId_def toUpperCase_def char_upper_replace)

lemma option_lines_distinct:
  "distinct (map fst vs) \<Longrightarrow>
   map (option_line idSafe vs) (map fst vs) =
     map (\<lambda>(name, v). ''_BUILD_ARG_'' @ idSafe @ ''_'' @ toUpperCase name @ ''='' @ DQUOTE
                         @ template v @ DQUOTE) vs"
  by (auto simp: option_line_def)

text \<open>
  Claim C7. For a feature with a value object, \<open>getFeatureEnvVariables\<close> returns one line
  \<open>_BUILD_ARG_<SAFE_ID>_<OPT>="<value>"\<close> for every option, the option name in upper case
  and the value between double quotes, then \<open>_BUILD_ARG_<SAFE_ID>=true\<close>, then
  \<open><buildArg>=<mainValue>\<close> exactly when the feature has a (non-empty) \<open>buildArg\<close>. The safe
  id is the feature id in upper case with every \<open>/\<close> and \<open>-\<close> replaced by \<open>_\<close>.
\<close>

theorem getFeatureEnvVariables_lines:
  assumes "getFeatureValueObject f = Some values" and "distinct (map fst values)"
  shows "getFeatureEnvVariables getFeatureValueObject getFeatureMainValue f =
       map (\<lambda>(name, v). ''_BUILD_ARG_'' @ getFeatureSafeId f @ ''_'' @ toUpperCase name
                            @ ''='' @ DQUOTE @ template v @ DQUOTE) values
       @ [''_BUILD_ARG_'' @ getFeatureSafeId f @ ''=true'']
       @ (case f_buildArg f of
            None \<Rightarrow> []
          | Some b \<Rightarrow> if b \<noteq> [] then [b @ ''='' @ template (getFeatureMainValue f)] else [])
   \<and> getFeatureSafeId f =
       map (\<lambda>c. if c = CHR ''/'' \<or> c = CHR ''-'' then CHR ''_'' else c) (toUpperCase (f_id f))"
proof -
  have "getFeatureEnvVariables getFeatureValueObject getFeatureMainValue f =
       map (option_line (getFeatureSafeId f) values) (map fst values)
       @ [''_BUILD_ARG_'' @ getFeatureSafeId f @ ''=true'']
       @ (case f_buildArg f of
            None \<Rightarrow> []
          | Some b \<Rightarrow> if b \<noteq> [] then [b @ ''='' @ template (getFeatureMainValue f)] else [])"
    using assms(1) by (simp add: getFeatureEnvVariables_def Let_def split: option.splits)
  then show ?thesis
    by (simp only: option_lines_distinct [OF assms(2)] getFeatureSafeId_alt [symmetric] simp_thms)
qed

theorem getFeatureEnvVariables_lines_witness:
  "(\<lambda>f. case f_value f of VOptions vs \<Rightarrow> Some vs | _ \<Rightarrow> None)
      \<lparr>f_id = ''my-tools/go'', f_value = VOptions [(''version'', SStr ''1.18''), (''lint'', SBool True)],
       f_included = True, f_containerEnv = None, f_buildArg = Some ''GO_VERSION''\<rparr>
     = Some [(''version'', SStr ''1.18''), (''lint'', SBool True)]
   \<and> distinct (map fst [(''version'', SStr ''1.18''), (''lint'', SBool True)])
   \<and> getFeatureEnvVariables (\<lambda>f. case f_value f of VOptions vs \<Rightarrow> Some vs | _ \<Rightarrow> None)
       (\<lambda>f. SStr ''1.18'')
       \<lparr>f_id = ''my-tools/go'', f_value = VOptions [(''version'', SStr ''1.18''), (''lint'', SBool True)],
        f_included = True, f_containerEnv = None, f_buildArg = Some ''GO_VERSION''\<rparr>
     = [''_BUILD_ARG_MY_TOOLS_GO_VERSION='' @ DQUOTE @ ''1.18'' @ DQUOTE,
        ''_BUILD_ARG_MY_TOOLS_GO_LINT='' @ DQUOTE @ ''true'' @ DQUOTE,
        ''_BUILD_ARG_MY_TOOLS_GO=true'',
        ''GO_VERSION=1.18'']"
proof -
  let ?f = "\<lparr>f_id = ''my-tools/go'', f_value = VOptions [(''version'', SStr ''1.18''), (''lint'', SBool True)],
       f_included = True, f_containerEnv = None, f_buildArg = Some ''GO_VERSION''\<rparr>"
  let ?gv = "\<lambda>f. case f_value f of VOptions vs \<Rightarrow> Some vs | _ \<Rightarrow> None"
  have h1: "?gv ?f = Some [(''version'', SStr ''1.18''), (''lint'', SBool True)]" by simp
  have h2: "distinct (map fst [(''version'', SStr ''1.18''), (''lint'', SBool True)])" by simp
  have sid: "getFeatureSafeId ?f = ''MY_TOOLS_GO''"
    by code_simp
  have up: "toUpperCase ''version'' = ''VERSION''" "toUpperCase ''lint'' = ''LINT''"
    by code_simp+
  from getFeatureEnvVariables_lines [of ?gv ?f, OF h1 h2, of "\<lambda>f. SStr ''1.18''"] h1 h2
  show ?thesis
    by (simp add: sid up)
qed

section \<open>Properties of the build driver\<close>

text \<open>
  The calls of \<open>extendImage\<close> when \<open>dstFolder\<close> is set, in the order in which they are
  issued. With BuildKit the argument vector of the build begins with
  \<open>buildx build --load\<close> and carries
  \<open>--build-context dev_containers_feature_content_source=<dstFolder>\<close>, and no content image
  is built. Without it, \<open>Dockerfile.buildContent\<close> (\<open>FROM scratch\<close>,
  \<open>COPY . /tmp/build-features/\<close>) is written and built first, with \<open>dstFolder\<close> as its
  context, and the argument vector of the main build begins with \<open>build\<close>. In both cases
  the context of the main build is \<open><tmpdir>/__dev-containers-build-empty\<close>, and the one
  call that names this directory before the build is \<open>mkdirp\<close>.
\<close>

lemma extendImage_build_calls:
  assumes "dstFolder cfg = Some dst" and "dst \<noteq> []"
  shows "extendImage h content_calls dockerfile (Some cfg) imageName imageUser =
     (content_calls
      @ (if useBuildKit h then []
         else [WriteFile (path_join h [dst, ''Dockerfile.buildContent''])
                 (LF @ TAB @ ''FROM scratch'' @ LF @ TAB @ ''COPY . /tmp/build-features/''
                    @ LF @ TAB),
               docker h [''build'', ''-t'', ''dev_container_feature_content_temp'', ''-f'',
                         path_join h [dst, ''Dockerfile.buildContent''], dst]])
      @ [WriteFile (path_join h [dst, ''Dockerfile.extended''])
           ((if useBuildKit h then ''# syntax=docker/dockerfile:1.4'' else []) @ LF
              @ ''ARG _DEV_CONTAINERS_BASE_IMAGE=mcr.microsoft.com/vscode/devcontainers/base:buster''
              @ LF @ dockerfile),
         Mkdirp (path_join h [tmpdir h, ''__dev-containers-build-empty'']),
         docker h
           ((if useBuildKit h
             then [''buildx'', ''build'', ''--load'', ''--build-context'',
                   ''dev_containers_feature_content_source='' @ dst]
             else [''build''])
            @ [''--build-arg'', ''_DEV_CONTAINERS_BASE_IMAGE='' @ imageName,
               ''--build-arg'', ''_DEV_CONTAINERS_IMAGE_USER='' @ imageUser,
               ''--build-arg'',
               ''_DEV_CONTAINERS_FEATURE_CONTENT_SOURCE=dev_container_feature_content_temp'',
               ''-t'',
               (if startsWith imageName (folderImageName h) then imageName
                else folderImageName h) @ ''-features'',
               ''-f'', path_join h [dst, ''Dockerfile.extended''],
               path_join h [tmpdir h, ''__dev-containers-build-empty'']])],
      (if startsWith imageName (folderImageName h) then imageName else folderImageName h)
        @ ''-features'')"
  using assms
  by (cases "useBuildKit h")
     (simp_all add: extendImage_def getExtendImageBuildInfo_def getContainerFeaturesBuildInfo_def
        build_args_def buildContentImageName_def buildContentDockerfile_def Let_def)

text \<open>
  Claim C8, on the code. On a host with the temporary directory \<open>/tmp\<close> and the legacy
  backend, \<open>extendImage\<close> issues the calls below. The content image is built first and
  the argument vector of the main build begins with \<open>build\<close>, as the claim says. The
  context of the main build is the fixed directory \<open>/tmp/__dev-containers-build-empty\<close>,
  for which the only call is \<open>mkdirp\<close>: no call removes or empties it, so what a host
  already holds in that directory is in the build context, and the directory is not
  guaranteed to be empty.
\<close>

theorem extendImage_context_not_emptied:
  "extendImage
     \<lparr>useBuildKit = False, stdin_isTTY = False, path_join = path_posix_join, tmpdir = ''/tmp'',
      folderImageName = ''vsc-ws''\<rparr>
     [Mkdirp ''/tmp/features/local-cache''] ''FROM base''
     (Some \<lparr>featureSets = [], dstFolder = Some ''/tmp/features''\<rparr>) ''ubuntu'' ''root''
   = ([Mkdirp ''/tmp/features/local-cache'',
       WriteFile ''/tmp/features/Dockerfile.buildContent''
         (LF @ TAB @ ''FROM scratch'' @ LF @ TAB @ ''COPY . /tmp/build-features/'' @ LF @ TAB),
       DockerCLI [''build'', ''-t'', ''dev_container_feature_content_temp'', ''-f'',
                  ''/tmp/features/Dockerfile.buildContent'', ''/tmp/features''],
       WriteFile ''/tmp/features/Dockerfile.extended''
         (LF @ ''ARG _DEV_CONTAINERS_BASE_IMAGE=mcr.microsoft.com/vscode/devcontainers/base:buster''
          @ LF @ ''FROM base''),
       Mkdirp ''/tmp/__dev-containers-build-empty'',
       DockerCLI
         [''build'',
          ''--build-arg'', ''_DEV_CONTAINERS_BASE_IMAGE=ubuntu'',
          ''--build-arg'', ''_DEV_CONTAINERS_IMAGE_USER=root'',
          ''--build-arg'',
          ''_DEV_CONTAINERS_FEATURE_CONTENT_SOURCE=dev_container_feature_content_temp'',
          ''-t'', ''vsc-ws-features'', ''-f'', ''/tmp/features/Dockerfile.extended'',
          ''/tmp/__dev-containers-build-empty'']],
      ''vsc-ws-features'')"
  by code_simp

section \<open>Properties of the features test command\<close>

lemma js_split_not_Nil: "js_split c s \<noteq> []"
  by (induction s) (auto split: list.splits)

text \<open>
  Claim C10, on the code. \<open>split(',')\<close> never returns an empty array, so the test
  \<open>features.length === 0\<close> never holds: for every features argument the command goes on
  to \<open>generateProject\<close> and \<open>launch\<close>, and for the empty string it does so with the one
  feature \<open>""\<close>. No invocation takes the branch that exits with status 1.
\<close>

theorem doFeaturesTestCommand_never_exits_1:
  "doFeaturesTestCommand commaSeparatedFeatures
     = Launched (js_split CHR '','' commaSeparatedFeatures)
   \<and> doFeaturesTestCommand [] = Launched [[]]"
  by (simp add: doFeaturesTestCommand_def js_split_not_Nil)

section \<open>Properties of the identifier parser\<close>

lemma js_split_no_sep: "c \<notin> set a \<Longrightarrow> js_split c a = [a]"
  by (induction a) auto

lemma js_split_append: "c \<notin> set a \<Longrightarrow> js_split c (a @ c # rest) = a # js_split c rest"
  by (induction a) auto

lemma split_first_none: "c \<notin> set a \<Longrightarrow> split_first c a = (a, None)"
  by (auto simp: split_first_def takeWhile_eq_all_conv)

lemma split_first_some: "c \<notin> set a \<Longrightarrow> split_first c (a @ c # rest) = (a, Some rest)"
  by (induction a) (auto simp: split_first_def)

lemma id_chars_no_sep:
  "CHR ''/'' \<notin> set (id_first_chars @ ''-'') \<and> CHR ''@'' \<notin> set (id_first_chars @ ''-'')"
  by (simp add: id_first_chars_def)

lemma valid_id_subset: "valid_id fid \<Longrightarrow> set fid \<subseteq> set (id_first_chars @ ''-'')"
  by (cases fid) (auto simp: valid_id_def)

lemma valid_id_chars: "valid_id fid \<Longrightarrow> CHR ''/'' \<notin> set fid \<and> CHR ''@'' \<notin> set fid"
  using id_chars_no_sep valid_id_subset by blast

lemma startsWith_append: "startsWith a p \<Longrightarrow> startsWith (a @ b) p"
  unfolding startsWith_def
  by (metis append_eq_conv_conj append_take_drop_id take_append append.assoc)

lemma js_includes_append: "js_includes a p \<Longrightarrow> js_includes (a @ b) p"
proof (induction a)
  case Nil
  then show ?case by (cases b) (simp_all add: startsWith_def)
next
  case (Cons x a)
  then show ?case using startsWith_append [of "x # a" p b] by auto
qed

lemma not_a_path:
  assumes "CHR ''/'' \<notin> set owner" and "owner \<noteq> []" and "owner \<noteq> ''.''" and "owner \<noteq> ''..''"
  shows "\<not> startsWith (owner @ CHR ''/'' # r) ''./''
       \<and> \<not> startsWith (owner @ CHR ''/'' # r) ''../''
       \<and> \<not> startsWith (owner @ CHR ''/'' # r) ''/''"
proof (cases owner)
  case Nil
  with assms show ?thesis by simp
next
  case c1: (Cons a as)
  show ?thesis
  proof (cases as)
    case Nil
    with c1 assms show ?thesis by (auto simp: startsWith_def)
  next
    case c2: (Cons b bs)
    show ?thesis
    proof (cases bs)
      case Nil
      with c1 c2 assms show ?thesis by (auto simp: startsWith_def)
    next
      case (Cons d ds)
      with c1 c2 assms show ?thesis by (auto simp: startsWith_def)
    qed
  qed
qed

text \<open>
  Claim C9. An identifier \<open><owner>/<repo>/<id>@<tag>\<close> that is neither a URI nor a path,
  with a valid id and a non-empty tag, parses to the \<open>github-repo\<close> source of that owner,
  repo and tag, with \<open>isLatest\<close> false, the API URI ending in \<open>/releases/tags/<tag>\<close> and
  the unauthenticated URI ending in \<open>/releases/download/<tag>/devcontainer-features.tgz\<close>.
  The same identifier without \<open>@<tag>\<close> parses to the source without tag, with
  \<open>isLatest\<close> true and the URIs ending in \<open>/releases/latest\<close> and
  \<open>/releases/latest/download/devcontainer-features.tgz\<close>.
\<close>

theorem parse_github_identifier:
  assumes id: "valid_id fid"
    and owner: "CHR ''/'' \<notin> set owner" "CHR ''@'' \<notin> set owner"
      "owner \<noteq> []" "owner \<noteq> ''.''" "owner \<noteq> ''..''"
    and repo: "CHR ''/'' \<notin> set repo" "CHR ''@'' \<notin> set repo"
    and tag: "tag \<noteq> []"
    and no_uri: "\<not> js_includes (owner @ ''/'' @ repo @ ''/'' @ fid @ ''@'' @ tag) ''://''"
  shows "parseFeatureIdentifier (owner @ ''/'' @ repo @ ''/'' @ fid @ ''@'' @ tag) =
       Some (GithubRepo owner repo (Some tag) False
               (''https://api.github.com/repos/'' @ owner @ ''/'' @ repo
                  @ ''/releases/tags/'' @ tag)
               (''https://github.com/'' @ owner @ ''/'' @ repo @ ''/releases/download/'' @ tag
                  @ ''/devcontainer-features.tgz''),
             fid)
   \<and> parseFeatureIdentifier (owner @ ''/'' @ repo @ ''/'' @ fid) =
       Some (GithubRepo owner repo None True
               (''https://api.github.com/repos/'' @ owner @ ''/'' @ repo @ ''/releases/latest'')
               (''https://github.com/'' @ owner @ ''/'' @ repo
                  @ ''/releases/latest/download/devcontainer-features.tgz''),
             fid)"
proof -
  let ?path = "owner @ CHR ''/'' # repo @ CHR ''/'' # fid"
  note idc = valid_id_chars [OF id]
  have at: "CHR ''@'' \<notin> set ?path" using owner repo idc by simp
  have segs: "js_split CHR ''/'' ?path = [owner, repo, fid]"
    using owner repo idc by (simp add: js_split_append js_split_no_sep)
  have p1: "\<not> startsWith (?path @ CHR ''@'' # tag) ''./''
       \<and> \<not> startsWith (?path @ CHR ''@'' # tag) ''../''
       \<and> \<not> startsWith (?path @ CHR ''@'' # tag) ''/''"
    using not_a_path [OF owner(1) owner(3) owner(4) owner(5), of "repo @ CHR ''/'' # fid @ CHR ''@'' # tag"]
    by simp
  have p2: "\<not> startsWith ?path ''./'' \<and> \<not> startsWith ?path ''../'' \<and> \<not> startsWith ?path ''/''"
    using not_a_path [OF owner(1) owner(3) owner(4) owner(5), of "repo @ CHR ''/'' # fid"]
    by simp
  have u1: "\<not> js_includes (?path @ CHR ''@'' # tag) ''://''"
    using no_uri by simp
  have u2: "\<not> js_includes ?path ''://''"
    using u1 js_includes_append [of ?path "''://''" "CHR ''@'' # tag"] by blast
  have s1: "split_first CHR ''@'' (owner @ CHR ''/'' # repo @ CHR ''/'' # fid @ CHR ''@'' # tag)
      = (?path, Some tag)"
    using split_first_some [OF at, of tag] by simp
  have s2: "split_first CHR ''@'' ?path = (?path, None)"
    using at by (rule split_first_none)
  have a: "parseFeatureIdentifier (?path @ CHR ''@'' # tag) =
       Some (github_source owner repo (Some tag), fid)"
    unfolding parseFeatureIdentifier_def using u1 p1 id tag by (simp add: s1 segs)
  have b: "parseFeatureIdentifier ?path = Some (github_source owner repo None, fid)"
    unfolding parseFeatureIdentifier_def using u2 p2 id by (simp add: s2 segs)
  from a b show ?thesis by (simp add: github_source_def)
qed

theorem parse_github_identifier_witness:
  "valid_id ''helloworld''
   \<and> \<not> js_includes (''octocat'' @ ''/'' @ ''myfeatures'' @ ''/'' @ ''helloworld'' @ ''@'' @ ''v0.0.4'') ''://''
   \<and> parseFeatureIdentifier ''octocat/myfeatures/helloworld@v0.0.4'' =
       Some (GithubRepo ''octocat'' ''myfeatures'' (Some ''v0.0.4'') False
               ''https://api.github.com/repos/octocat/myfeatures/releases/tags/v0.0.4''
               ''https://github.com/octocat/myfeatures/releases/download/v0.0.4/devcontainer-features.tgz'',
             ''helloworld'')
   \<and> parseFeatureIdentifier ''octocat/myfeatures/helloworld'' =
       Some (GithubRepo ''octocat'' ''myfeatures'' None True
               ''https://api.github.com/repos/octocat/myfeatures/releases/latest''
               ''https://github.com/octocat/myfeatures/releases/latest/download/devcontainer-features.tgz'',
             ''helloworld'')"
proof -
  have 1: "valid_id ''helloworld''" by code_simp
  have 2: "\<not> js_includes (''octocat'' @ ''/'' @ ''myfeatures'' @ ''/'' @ ''helloworld'' @ ''@'' @ ''v0.0.4'') ''://''"
    by code_simp
  have 3: "CHR ''/'' \<notin> set ''octocat''" "CHR ''@'' \<notin> set ''octocat''"
    "''octocat'' \<noteq> []" "''octocat'' \<noteq> ''.''" "''octocat'' \<noteq> ''..''"
    "CHR ''/'' \<notin> set ''myfeatures''" "CHR ''@'' \<notin> set ''myfeatures''" "''v0.0.4'' \<noteq> []"
    by simp_all
  from parse_github_identifier [OF 1 3 2] 1 2 show ?thesis by simp
qed

end
